theory Spec2Isabelle
  imports Complex_Main "HOL-Library.Sublist"
begin

section \<open>JavaScript strings\<close>

text \<open>
  A JavaScript string is a sequence of UTF-16 code units and \<^verbatim>\<open>.length\<close> counts
  them. The model uses \<^typ>\<open>string\<close>: one \<^typ>\<open>char\<close> stands for one code unit, so
  the strings covered are those whose code units lie in 0..255 and \<^const>\<open>length\<close> is
  \<^verbatim>\<open>.length\<close>.

  \<^verbatim>\<open>String.prototype.trim\<close> and the regular-expression class \<^verbatim>\<open>\s\<close> use the same
  set of characters (WhiteSpace and LineTerminator of ECMAScript). Those below U+0100
  are TAB, LF, VT, FF, CR, SPACE and NO-BREAK SPACE.
\<close>

definition isSpace :: "char \<Rightarrow> bool" where
  "isSpace c = (c = CHR 0x09 \<or> c = CHR 0x0A \<or> c = CHR 0x0B \<or> c = CHR 0x0C \<or>
                c = CHR 0x0D \<or> c = CHR 0x20 \<or> c = CHR 0xA0)"

text \<open>\<^verbatim>\<open>s.trim()\<close>: white space is removed from both ends.\<close>

definition trim :: "string \<Rightarrow> string" where
  "trim s = rev (dropWhile isSpace (rev (dropWhile isSpace s)))"

text \<open>
  \<^verbatim>\<open>s.split(/\s+/)\<close>. The separator matches at a position exactly when the character
  there is white space, and then takes the whole run. The pieces between the runs are
  returned; a run at the start or the end of the string leaves an empty piece there, and
  a string with no run (the empty string too) is returned as its only piece.
  \<open>inSep\<close> tells that the character before was part of a separator; \<open>acc\<close> is the
  current piece, reversed.
\<close>

fun splitWs :: "bool \<Rightarrow> string \<Rightarrow> string \<Rightarrow> string list" where
  "splitWs inSep acc [] = [rev acc]"
| "splitWs inSep acc (c # cs) =
     (if isSpace c
      then (if inSep then splitWs True [] cs else rev acc # splitWs True [] cs)
      else splitWs False (c # acc) cs)"

definition split_whitespace :: "string \<Rightarrow> string list" where
  "split_whitespace s = splitWs False [] s"

text \<open>
  \<^verbatim>\<open>s.split(',')\<close>: the pieces between the commas, empty pieces included.
\<close>

fun splitComma :: "string \<Rightarrow> string \<Rightarrow> string list" where
  "splitComma acc [] = [rev acc]"
| "splitComma acc (c # cs) =
     (if c = CHR '',''
      then rev acc # splitComma [] cs
      else splitComma (c # acc) cs)"

definition split_comma :: "string \<Rightarrow> string list" where
  "split_comma s = splitComma [] s"

section \<open>AddNewsModal: read time\<close>

text \<open>
  \<^verbatim>\<open>
  const calculateReadTime = (text: string): number => {
    const wordsPerMinute = 200;
    const wordCount = text.trim().split(/\s+/).length;
    return Math.max(1, Math.ceil(wordCount / wordsPerMinute));
  };
  \<close>
  The quotient is a real number here; a double holds it without reaching a wrong integer
  for every length a string can have.
\<close>

definition wordsPerMinute :: nat where
  "wordsPerMinute = 200"

definition calculateReadTime :: "string \<Rightarrow> int" where
  "calculateReadTime text =
     (let wordCount = length (split_whitespace (trim text))
      in max 1 \<lceil>real wordCount / real wordsPerMinute\<rceil>)"

text \<open>
  The number of whitespace-separated words of a string, counted as the spec words it:
  a word starts at every character that is not white space and stands first or after
  white space. \<open>afterSpace\<close> tells that the position before was white space (or the
  start of the text).
\<close>

fun countWords :: "bool \<Rightarrow> string \<Rightarrow> nat" where
  "countWords afterSpace [] = 0"
| "countWords afterSpace (c # cs) =
     (if isSpace c then countWords True cs
      else (if afterSpace then 1 else 0) + countWords False cs)"

definition word_count_spec :: "string \<Rightarrow> nat" where
  "word_count_spec s = countWords True s"

definition read_time_spec :: "string \<Rightarrow> int" where
  "read_time_spec s = max 1 \<lceil>real (word_count_spec s) / 200\<rceil>"

text \<open>
  Whether a text ends in white space, where \<open>b\<close> answers for the empty text. It states
  how the number of pieces of \<open>splitWs\<close> and the number of words differ.
\<close>

definition endsSpace :: "bool \<Rightarrow> string \<Rightarrow> bool" where
  "endsSpace b s = (if s = [] then b else isSpace (last s))"

section \<open>Regular expressions\<close>

text \<open>
  The fragment of JavaScript's regular expressions that the image-URL pattern uses:
  a character test, alternation, concatenation, repetition. \<open>Plus r\<close> is \<^verbatim>\<open>r+\<close>,
  \<open>Opt r\<close> is \<^verbatim>\<open>r?\<close>.
\<close>

datatype regex =
    Never
  | Empty
  | Chr "char \<Rightarrow> bool"
  | Alt regex regex
  | Seq regex regex
  | Star regex

definition Plus :: "regex \<Rightarrow> regex" where
  "Plus r = Seq r (Star r)"

definition Opt :: "regex \<Rightarrow> regex" where
  "Opt r = Alt r Empty"

text \<open>The strings a pattern matches from its first to its last character.\<close>

inductive_set star :: "string set \<Rightarrow> string set" for A :: "string set" where
  star_nil: "[] \<in> star A"
| star_app: "u \<in> A \<Longrightarrow> v \<in> star A \<Longrightarrow> u @ v \<in> star A"

fun lang :: "regex \<Rightarrow> string set" where
  "lang Never = {}"
| "lang Empty = {[]}"
| "lang (Chr P) = {[c] | c. P c}"
| "lang (Alt r s) = lang r \<union> lang s"
| "lang (Seq r s) = {u @ v | u v. u \<in> lang r \<and> v \<in> lang s}"
| "lang (Star r) = star (lang r)"

text \<open>
  The matcher that runs: \<open>deriv c r\<close> matches what \<open>r\<close> matches after a leading \<open>c\<close>,
  and \<open>nullable r\<close> tells whether \<open>r\<close> matches the empty string. JavaScript searches
  by backtracking; for a pattern of this fragment it finds a match exactly when one
  exists, which is what \<open>lang\<close> says and what the matcher decides.
\<close>

fun nullable :: "regex \<Rightarrow> bool" where
  "nullable Never = False"
| "nullable Empty = True"
| "nullable (Chr P) = False"
| "nullable (Alt r s) = (nullable r \<or> nullable s)"
| "nullable (Seq r s) = (nullable r \<and> nullable s)"
| "nullable (Star r) = True"

fun deriv :: "char \<Rightarrow> regex \<Rightarrow> regex" where
  "deriv c Never = Never"
| "deriv c Empty = Never"
| "deriv c (Chr P) = (if P c then Empty else Never)"
| "deriv c (Alt r s) = Alt (deriv c r) (deriv c s)"
| "deriv c (Seq r s) =
     (if nullable r then Alt (Seq (deriv c r) s) (deriv c s) else Seq (deriv c r) s)"
| "deriv c (Star r) = Seq (deriv c r) (Star r)"

text \<open>
  \<^verbatim>\<open>s.match(/^r/)\<close> is not null exactly when \<open>r\<close> matches some prefix of \<open>s\<close>: the
  pattern is anchored at the start by \<^verbatim>\<open>^\<close> and nothing anchors its end.
\<close>

fun matchPrefix :: "regex \<Rightarrow> string \<Rightarrow> bool" where
  "matchPrefix r [] = nullable r"
| "matchPrefix r (c # cs) = (nullable r \<or> matchPrefix (deriv c r) cs)"

text \<open>
  The flag \<^verbatim>\<open>i\<close> compares characters after canonicalization, which maps a character
  to its upper case. Only the letters a to z are mapped onto the letters A to Z, which
  is all that a comparison with an ASCII pattern character depends on.
\<close>

definition canonicalize :: "char \<Rightarrow> char" where
  "canonicalize c =
     (case map_of (zip ''abcdefghijklmnopqrstuvwxyz'' ''ABCDEFGHIJKLMNOPQRSTUVWXYZ'') c of
        Some u \<Rightarrow> u
      | None \<Rightarrow> c)"

definition chr_ci :: "char \<Rightarrow> regex" where
  "chr_ci c = Chr (\<lambda>x. canonicalize x = canonicalize c)"

fun lit_ci :: "string \<Rightarrow> regex" where
  "lit_ci [] = Empty"
| "lit_ci (c # cs) = Seq (chr_ci c) (lit_ci cs)"

text \<open>\<^verbatim>\<open>.\<close> matches every character but a line terminator (LF and CR below U+0100).\<close>

definition lineTerminator :: "char \<Rightarrow> bool" where
  "lineTerminator c = (c = CHR 0x0A \<or> c = CHR 0x0D)"

definition dot :: regex where
  "dot = Chr (\<lambda>c. \<not> lineTerminator c)"

text \<open>
  \<^verbatim>\<open>/^https?:\/\/.+\.(jpg|jpeg|png|gif|webp)/i\<close>, the pattern of \<^verbatim>\<open>validateForm\<close>.
\<close>

definition imageExtensions :: regex where
  "imageExtensions =
     Alt (lit_ci ''jpg'') (Alt (lit_ci ''jpeg'') (Alt (lit_ci ''png'')
       (Alt (lit_ci ''gif'') (lit_ci ''webp''))))"

definition imageUrlPattern :: regex where
  "imageUrlPattern =
     Seq (Seq (lit_ci ''http'') (Opt (chr_ci CHR ''s'')))
       (Seq (lit_ci ''://'')
         (Seq (Plus dot)
           (Seq (chr_ci CHR ''.'') imageExtensions)))"

text \<open>\<^verbatim>\<open>imageUrl.match(/^https?:\/\/.+\.(jpg|jpeg|png|gif|webp)/i)\<close> is not null.\<close>

definition isImageUrl :: "string \<Rightarrow> bool" where
  "isImageUrl s = matchPrefix imageUrlPattern s"

text \<open>
  The words of the spec for an accepted image URL: an http or https scheme, and one of
  the image extensions at the end, both compared without regard to case. \<open>isHttpUrl\<close>
  and \<open>endsWithImageExt\<close> say this of a whole string; \<open>isHttpScheme\<close> and
  \<open>isImageExt\<close> say it of the scheme and of the extension alone.
\<close>

definition isHttpScheme :: "string \<Rightarrow> bool" where
  "isHttpScheme w = (map canonicalize w = ''HTTP'' \<or> map canonicalize w = ''HTTPS'')"

definition isImageExt :: "string \<Rightarrow> bool" where
  "isImageExt w = (map canonicalize w \<in> set [''JPG'', ''JPEG'', ''PNG'', ''GIF'', ''WEBP''])"

definition endsWithImageExt :: "string \<Rightarrow> bool" where
  "endsWithImageExt s =
     (\<exists>e \<in> set [''.JPG'', ''.JPEG'', ''.PNG'', ''.GIF'', ''.WEBP'']. suffix e (map canonicalize s))"

definition isHttpUrl :: "string \<Rightarrow> bool" where
  "isHttpUrl s =
     (prefix ''HTTP://'' (map canonicalize s) \<or> prefix ''HTTPS://'' (map canonicalize s))"

section \<open>AddNewsModal: the form and its validation\<close>

text \<open>The state of the component: the form fields and the three flags of \<^verbatim>\<open>useState\<close>.\<close>

record form_data =
  title :: string
  summary :: string
  content :: string
  imageUrl :: string
  category :: string
  source :: string
  tags :: string

record modal =
  formData :: form_data
  isSubmitting :: bool
  error :: string
  success :: bool

text \<open>The form a fresh component holds, and the one \<^verbatim>\<open>handleClose\<close> restores.\<close>

definition emptyForm :: form_data where
  "emptyForm =
     \<lparr>title = [], summary = [], content = [], imageUrl = [],
      category = ''breaking'', source = ''Cambliss Community'', tags = []\<rparr>"

text \<open>
  \<^verbatim>\<open>validateForm\<close>: eight tests in the order of the source; the first that fails sets
  \<^verbatim>\<open>error\<close> and returns \<^verbatim>\<open>false\<close>. \<^verbatim>\<open>!s.trim()\<close> holds when nothing is left of
  \<open>s\<close> after trimming; the lengths compared are those of the fields as typed.
\<close>

definition validateForm :: "modal \<Rightarrow> modal \<times> bool" where
  "validateForm s =
     (let fd = formData s in
      if trim (title fd) = [] then (s\<lparr>error := ''Title is required''\<rparr>, False)
      else if length (title fd) < 10
        then (s\<lparr>error := ''Title must be at least 10 characters''\<rparr>, False)
      else if trim (summary fd) = [] then (s\<lparr>error := ''Summary is required''\<rparr>, False)
      else if length (summary fd) < 20
        then (s\<lparr>error := ''Summary must be at least 20 characters''\<rparr>, False)
      else if trim (content fd) = [] then (s\<lparr>error := ''Content is required''\<rparr>, False)
      else if length (content fd) < 100
        then (s\<lparr>error := ''Content must be at least 100 characters''\<rparr>, False)
      else if trim (imageUrl fd) = [] then (s\<lparr>error := ''Image URL is required''\<rparr>, False)
      else if \<not> isImageUrl (imageUrl fd)
        then (s\<lparr>error := ''Please provide a valid image URL''\<rparr>, False)
      else (s, True))"

text \<open>
  The four checks as the source makes them, each the two tests of \<^verbatim>\<open>validateForm\<close> on
  one field: \<^verbatim>\<open>!s.trim()\<close>, so that a field of white space only counts as empty, and
  the length of the field as typed against the threshold or, for the image URL,
  \<^verbatim>\<open>imageUrlPattern.test\<close>, which has no anchor at the end of the string.
\<close>

definition titleCheck :: "form_data \<Rightarrow> bool" where
  "titleCheck fd = (trim (title fd) \<noteq> [] \<and> 10 \<le> length (title fd))"

definition summaryCheck :: "form_data \<Rightarrow> bool" where
  "summaryCheck fd = (trim (summary fd) \<noteq> [] \<and> 20 \<le> length (summary fd))"

definition contentCheck :: "form_data \<Rightarrow> bool" where
  "contentCheck fd = (trim (content fd) \<noteq> [] \<and> 100 \<le> length (content fd))"

definition imageUrlCheck :: "form_data \<Rightarrow> bool" where
  "imageUrlCheck fd = (trim (imageUrl fd) \<noteq> [] \<and> isImageUrl (imageUrl fd))"

text \<open>
  The checks of the source in their order, the first of them that a form fails, and the
  message the source has for a failed check: one for an empty field, one for a field
  that is too short or a URL that does not match.
\<close>

datatype check = TitleCheck | SummaryCheck | ContentCheck | ImageUrlCheck

definition passes :: "check \<Rightarrow> form_data \<Rightarrow> bool" where
  "passes c fd =
     (case c of
        TitleCheck \<Rightarrow> titleCheck fd
      | SummaryCheck \<Rightarrow> summaryCheck fd
      | ContentCheck \<Rightarrow> contentCheck fd
      | ImageUrlCheck \<Rightarrow> imageUrlCheck fd)"

definition firstFailing :: "form_data \<Rightarrow> check option" where
  "firstFailing fd =
     find (\<lambda>c. \<not> passes c fd) [TitleCheck, SummaryCheck, ContentCheck, ImageUrlCheck]"

definition checkMessage :: "check \<Rightarrow> form_data \<Rightarrow> string" where
  "checkMessage c fd =
     (case c of
        TitleCheck \<Rightarrow>
          if trim (title fd) = [] then ''Title is required''
          else ''Title must be at least 10 characters''
      | SummaryCheck \<Rightarrow>
          if trim (summary fd) = [] then ''Summary is required''
          else ''Summary must be at least 20 characters''
      | ContentCheck \<Rightarrow>
          if trim (content fd) = [] then ''Content is required''
          else ''Content must be at least 100 characters''
      | ImageUrlCheck \<Rightarrow>
          if trim (imageUrl fd) = [] then ''Image URL is required''
          else ''Please provide a valid image URL'')"

text \<open>
  The four checks in the words of the spec:
  \<^verbatim>\<open>
  1. title non-empty and at least 10 characters,
  2. summary non-empty and at least 20 characters,
  3. content non-empty and at least 100 characters,
  4. image URL non-empty and matches an http(s) URL ending in a recognized image
     extension (jpg/jpeg/png/gif/webp, case-insensitive).
  \<close>
  A form is accepted, in these words, when all four pass.
\<close>

definition titleCheck_spec :: "form_data \<Rightarrow> bool" where
  "titleCheck_spec fd = (title fd \<noteq> [] \<and> 10 \<le> length (title fd))"

definition summaryCheck_spec :: "form_data \<Rightarrow> bool" where
  "summaryCheck_spec fd = (summary fd \<noteq> [] \<and> 20 \<le> length (summary fd))"

definition contentCheck_spec :: "form_data \<Rightarrow> bool" where
  "contentCheck_spec fd = (content fd \<noteq> [] \<and> 100 \<le> length (content fd))"

definition imageUrlCheck_spec :: "form_data \<Rightarrow> bool" where
  "imageUrlCheck_spec fd =
     (imageUrl fd \<noteq> [] \<and> isHttpUrl (imageUrl fd) \<and> endsWithImageExt (imageUrl fd))"

definition accepts_spec :: "form_data \<Rightarrow> bool" where
  "accepts_spec fd =
     (titleCheck_spec fd \<and> summaryCheck_spec fd \<and> contentCheck_spec fd \<and> imageUrlCheck_spec fd)"

section \<open>AddNewsModal: submission\<close>

text \<open>
  The signed-in user as \<^verbatim>\<open>useAuth\<close> gives it. \<^verbatim>\<open>publishedStories\<close> may be undefined,
  which the source tests for.
\<close>

record user_profile =
  user_id :: string
  fullName :: string
  publishedStories :: "nat option"

text \<open>
  What a call of \<^verbatim>\<open>handleSubmit\<close> reads from outside the component: the
  authentication state, the language, the two environment variables (undefined or a
  string) and the clock.
\<close>

record submit_env =
  isAuthenticated :: bool
  user :: "user_profile option"
  currentLanguage :: string
  supabaseUrl :: "string option"
  supabaseKey :: "string option"
  now :: string

text \<open>The row sent to the backend.\<close>

record article =
  a_title :: string
  a_summary :: string
  a_content :: string
  image_url :: string
  a_category :: string
  a_source :: string
  author :: string
  author_id :: string
  language :: string
  a_tags :: "string list"
  is_premium :: bool
  read_time :: int
  published_at :: string
  is_verified :: bool
  verification_score :: real

text \<open>
  What the backend does with the request. \<^verbatim>\<open>fetch\<close> throws an error with a message,
  or returns a response with its \<^verbatim>\<open>ok\<close> flag (a status from 200 to 299). Reading the
  body with \<^verbatim>\<open>response.json()\<close> throws an error with a message, or gives a value whose
  \<^verbatim>\<open>message\<close> property is absent or a string.
\<close>

datatype json_result = JsonThrows string | JsonValue "string option"

datatype fetch_result = FetchThrows string | Response bool json_result

text \<open>What a handler does to the world outside the component, in the order it does it.\<close>

datatype effect =
    Fetch string string article
  | AddCamblissPoints nat string
  | SetItem string user_profile
  | SetTimeout nat
  | ConsoleError string
  | OnSuccess
  | OnClose

text \<open>A JavaScript value used as a condition: undefined and the empty string are falsy.\<close>

definition falsy :: "string option \<Rightarrow> bool" where
  "falsy v = (case v of None \<Rightarrow> True | Some x \<Rightarrow> x = [])"

text \<open>
  \<^verbatim>\<open>if (!supabaseUrl || !supabaseKey) throw ...\<close>: the two values when neither is falsy.
\<close>

definition config :: "submit_env \<Rightarrow> (string \<times> string) option" where
  "config env =
     (case (supabaseUrl env, supabaseKey env) of
        (Some url, Some key) \<Rightarrow>
          if falsy (Some url) \<or> falsy (Some key) then None else Some (url, key)
      | _ \<Rightarrow> None)"

text \<open>\<^verbatim>\<open>v || d\<close> on a string that may be undefined.\<close>

definition orElse :: "string option \<Rightarrow> string \<Rightarrow> string" where
  "orElse v d = (case v of None \<Rightarrow> d | Some x \<Rightarrow> if x = [] then d else x)"

text \<open>
  \<^verbatim>\<open>formData.tags.split(',').map(tag => tag.trim()).filter(tag => tag.length > 0)\<close>
\<close>

definition parseTags :: "string \<Rightarrow> string list" where
  "parseTags t = filter (\<lambda>tag. 0 < length tag) (map trim (split_comma t))"

definition newArticle :: "submit_env \<Rightarrow> user_profile \<Rightarrow> form_data \<Rightarrow> article" where
  "newArticle env u fd =
     \<lparr>a_title = trim (title fd),
      a_summary = trim (summary fd),
      a_content = trim (content fd),
      image_url = trim (imageUrl fd),
      a_category = category fd,
      a_source = orElse (Some (trim (source fd))) ''Cambliss Community'',
      author = fullName u,
      author_id = user_id u,
      language = currentLanguage env,
      a_tags = parseTags (tags fd),
      is_premium = False,
      read_time = calculateReadTime (content fd),
      published_at = now env,
      is_verified = False,
      verification_score = 0\<rparr>"

text \<open>
  The \<^verbatim>\<open>catch\<close> block followed by \<^verbatim>\<open>finally\<close>, for an error with message \<open>msg\<close>
  thrown after the effects \<open>sent\<close>:
  \<^verbatim>\<open>
  console.error('Error publishing article:', err);
  setError(err.message || 'Failed to publish article. Please try again.');
  setIsSubmitting(false);
  \<close>
\<close>

definition catchError :: "string \<Rightarrow> modal \<Rightarrow> effect list \<Rightarrow> modal \<times> effect list" where
  "catchError msg s sent =
     (s\<lparr>error := orElse (Some msg) ''Failed to publish article. Please try again.'',
        isSubmitting := False\<rparr>,
      sent @ [ConsoleError msg])"

text \<open>
  \<^verbatim>\<open>handleSubmit\<close>, with \<open>res\<close> what the backend does with the request if one is
  sent. The result is the state after the handler has run to its end and the effects
  it had. Every \<^verbatim>\<open>throw\<close> inside the \<^verbatim>\<open>try\<close> block ends in \<open>catchError\<close>: the missing
  configuration, a failing \<^verbatim>\<open>fetch\<close>, a response that is not ok, and a body that
  cannot be read.
\<close>

definition handleSubmit :: "submit_env \<Rightarrow> fetch_result \<Rightarrow> modal \<Rightarrow> modal \<times> effect list" where
  "handleSubmit env res s =
     (case user env of
        None \<Rightarrow> (s\<lparr>error := ''You must be logged in to add news''\<rparr>, [])
      | Some u \<Rightarrow>
          if \<not> isAuthenticated env
          then (s\<lparr>error := ''You must be logged in to add news''\<rparr>, [])
          else
            (case validateForm s of
               (s1, False) \<Rightarrow> (s1, [])
             | (s1, True) \<Rightarrow>
                 let s2 = s1\<lparr>isSubmitting := True, error := []\<rparr>;
                     fd = formData s2
                 in
                 (case config env of
                    None \<Rightarrow> catchError ''Database configuration not found'' s2 []
                  | Some (url, key) \<Rightarrow>
                   let request = Fetch (url @ ''/rest/v1/user_articles'') key (newArticle env u fd)
                   in
                   (case res of
                      FetchThrows msg \<Rightarrow> catchError msg s2 [request]
                    | Response ok body \<Rightarrow>
                        if \<not> ok
                        then
                          (case body of
                             JsonThrows msg \<Rightarrow> catchError msg s2 [request]
                           | JsonValue message \<Rightarrow>
                               catchError (orElse message ''Failed to publish article'') s2 [request])
                        else
                          (case body of
                             JsonThrows msg \<Rightarrow> catchError msg s2 [request]
                           | JsonValue createdArticle \<Rightarrow>
                               (s2\<lparr>success := True, isSubmitting := False\<rparr>,
                                [request, AddCamblissPoints 50 ''Published news article''] @
                                (case publishedStories u of
                                   None \<Rightarrow> []
                                 | Some n \<Rightarrow>
                                     [SetItem ''cambliss-user'' (u\<lparr>publishedStories := Some (n + 1)\<rparr>)]) @
                                [SetTimeout 2000]))))))"

text \<open>\<^verbatim>\<open>handleClose\<close> and the function that the timeout runs after a success.\<close>

definition handleClose :: "modal \<Rightarrow> modal \<times> effect list" where
  "handleClose s = (s\<lparr>formData := emptyForm, error := [], success := False\<rparr>, [OnClose])"

definition afterTimeout :: "modal \<Rightarrow> modal \<times> effect list" where
  "afterTimeout s = (let (s', fx) = handleClose s in (s', OnSuccess # fx))"

text \<open>The requests among the effects of a handler.\<close>

fun isFetch :: "effect \<Rightarrow> bool" where
  "isFetch (Fetch url key body) = True"
| "isFetch e = False"

definition requests :: "effect list \<Rightarrow> effect list" where
  "requests fx = filter isFetch fx"

text \<open>The writes to \<^verbatim>\<open>localStorage\<close> among the effects of a handler.\<close>

fun isSetItem :: "effect \<Rightarrow> bool" where
  "isSetItem (SetItem k v) = True"
| "isSetItem e = False"

text \<open>
  The message the spec expects after a failed request: the one of the response body,
  or one of the source's two generic messages when the body gives none.
\<close>

definition bodyMessage :: "fetch_result \<Rightarrow> string option" where
  "bodyMessage res =
     (case res of
        Response ok (JsonValue (Some m)) \<Rightarrow> if m = [] then None else Some m
      | _ \<Rightarrow> None)"

definition genericFallbacks :: "string set" where
  "genericFallbacks =
     {''Failed to publish article'', ''Failed to publish article. Please try again.''}"

definition claimedMessage :: "fetch_result \<Rightarrow> string \<Rightarrow> bool" where
  "claimedMessage res msg =
     (case bodyMessage res of Some m \<Rightarrow> msg = m | None \<Rightarrow> msg \<in> genericFallbacks)"

section \<open>usePremium\<close>

text \<open>
  \<^verbatim>\<open>localStorage\<close> maps keys to strings; \<^verbatim>\<open>getItem\<close> gives null for a key that is
  not there.
\<close>

type_synonym storage = "string \<rightharpoonup> string"

definition getItem :: "storage \<Rightarrow> string \<Rightarrow> string option" where
  "getItem st key = st key"

text \<open>
  \<^verbatim>\<open>
  const checkPremium = () => {
    const localPremium = localStorage.getItem('isPremium') === 'true';
    setIsPremium(subscriptionIsPremium || localPremium);
  };
  \<close>
  The value is the state \<^verbatim>\<open>isPremium\<close> after the call. The hook calls it when it
  mounts, when \<^verbatim>\<open>subscriptionIsPremium\<close> changes, and on the events \<^verbatim>\<open>storage\<close> and
  \<^verbatim>\<open>premiumStatusChanged\<close>.
\<close>

definition checkPremium :: "bool \<Rightarrow> storage \<Rightarrow> bool" where
  "checkPremium subscriptionIsPremium st =
     (let localPremium = (case getItem st ''isPremium'' of
                            None \<Rightarrow> False
                          | Some v \<Rightarrow> v = ''true'')
      in subscriptionIsPremium \<or> localPremium)"

section \<open>MiniPlayer\<close>

text \<open>
  The audio element behind \<^verbatim>\<open>audioRef\<close> (its \<^verbatim>\<open>currentTime\<close>, here \<open>position\<close>, and
  whether it is paused), the state of the component, and the episode it is given.
  Times are seconds, as real numbers. The element takes the position it is assigned.
\<close>

record audio =
  src :: string
  paused :: bool
  position :: real

record player =
  isPlaying :: bool
  currentTime :: real
  showUpgradePrompt :: bool
  audioRef :: "audio option"

record episode =
  episode_id :: string
  episode_title :: string
  duration :: real
  audioUrl :: string

definition FREE_LIMIT :: real where
  "FREE_LIMIT = 60"

text \<open>
  \<^verbatim>\<open>
  const handleTimeUpdate = () => {
    if (audioRef.current) {
      const time = audioRef.current.currentTime;
      setCurrentTime(time);
      if (!isPremium && time >= FREE_LIMIT) {
        audioRef.current.pause();
        setIsPlaying(false);
        setShowUpgradePrompt(true);
      }
    }
  };
  \<close>
  \<open>isPremium\<close> is the value of that name which the handler reads.
\<close>

definition handleTimeUpdate :: "bool \<Rightarrow> player \<Rightarrow> player" where
  "handleTimeUpdate isPremium s =
     (case audioRef s of
        None \<Rightarrow> s
      | Some a \<Rightarrow>
          let time = position a;
              s1 = s\<lparr>currentTime := time\<rparr>
          in if \<not> isPremium \<and> time \<ge> FREE_LIMIT
             then s1\<lparr>audioRef := Some (a\<lparr>paused := True\<rparr>),
                     isPlaying := False,
                     showUpgradePrompt := True\<rparr>
             else s1)"

definition handleEnded :: "player \<Rightarrow> player" where
  "handleEnded s = s\<lparr>isPlaying := False, currentTime := 0\<rparr>"

definition togglePlayPause :: "bool \<Rightarrow> episode option \<Rightarrow> player \<Rightarrow> player" where
  "togglePlayPause isPremium ep s =
     (case (audioRef s, ep) of
        (Some a, Some e) \<Rightarrow>
          if \<not> isPremium \<and> currentTime s \<ge> FREE_LIMIT
          then s\<lparr>showUpgradePrompt := True\<rparr>
          else if isPlaying s
          then s\<lparr>audioRef := Some (a\<lparr>paused := True\<rparr>), isPlaying := False\<rparr>
          else s\<lparr>audioRef := Some (a\<lparr>paused := False\<rparr>), isPlaying := True\<rparr>
      | _ \<Rightarrow> s)"

text \<open>
  A click on the progress bar: the pointer's \<^verbatim>\<open>clientX\<close> and the bar's bounding
  rectangle.
  \<^verbatim>\<open>
  const handleProgressClick = (e) => {
    if (!audioRef.current || !episode) return;
    if (!isPremium && currentTime >= FREE_LIMIT) return;
    const rect = e.currentTarget.getBoundingClientRect();
    const x = e.clientX - rect.left;
    const percentage = x / rect.width;
    const newTime = percentage * (isPremium ? episode.duration : FREE_LIMIT);
    audioRef.current.currentTime = newTime;
    setCurrentTime(newTime);
  };
  \<close>
  A rectangle of width 0 makes the quotient infinite or NaN; assigning that to
  \<^verbatim>\<open>currentTime\<close> raises a TypeError, and the handler ends with nothing changed.
\<close>

record click =
  clientX :: real
  rect_left :: real
  rect_width :: real

definition percentage :: "click \<Rightarrow> real" where
  "percentage e = (clientX e - rect_left e) / rect_width e"

definition handleProgressClick :: "bool \<Rightarrow> episode option \<Rightarrow> click \<Rightarrow> player \<Rightarrow> player" where
  "handleProgressClick isPremium ep e s =
     (case (audioRef s, ep) of
        (Some a, Some episode) \<Rightarrow>
          if \<not> isPremium \<and> currentTime s \<ge> FREE_LIMIT then s
          else if rect_width e = 0 then s
          else
            let newTime = percentage e * (if isPremium then duration episode else FREE_LIMIT)
            in s\<lparr>audioRef := Some (a\<lparr>position := newTime\<rparr>), currentTime := newTime\<rparr>
      | _ \<Rightarrow> s)"

text \<open>\<^verbatim>\<open>handleClosePlayer\<close>, before it calls \<^verbatim>\<open>onClose\<close>.\<close>

definition handleClosePlayer :: "player \<Rightarrow> player" where
  "handleClosePlayer s =
     s\<lparr>audioRef := map_option (\<lambda>a. a\<lparr>paused := True, position := 0\<rparr>) (audioRef s)\<rparr>"

text \<open>Whether the audio element is paused, when there is one.\<close>

definition audioPaused :: "player \<Rightarrow> bool option" where
  "audioPaused s = map_option paused (audioRef s)"

section \<open>MiniPlayer: the effect and the listeners\<close>

text \<open>
  Every render of the component makes new functions \<^verbatim>\<open>handleTimeUpdate\<close> and
  \<^verbatim>\<open>handleEnded\<close>. A function \<^verbatim>\<open>handleTimeUpdate\<close> reads the \<open>isPremium\<close> of the
  render that made it, whatever the hook says later. A listener on the audio element is
  such a function: the number of the render that made it, which tells it from the
  functions of other renders, and the \<open>isPremium\<close> it holds.
\<close>

record listener =
  made_in :: nat
  held_isPremium :: bool

text \<open>
  The mounted component: its state and audio element, the \<^verbatim>\<open>episode\<close> it is given,
  the \<open>isPremium\<close> of the hook at the latest render, the listeners the element has for
  \<^verbatim>\<open>timeupdate\<close> and for \<^verbatim>\<open>ended\<close>, the render whose functions the cleanup returned by
  the last run of the effect removes (none when the effect returned nothing), and the
  number of the latest render.
\<close>

record component =
  state :: player
  given_episode :: "episode option"
  hook_isPremium :: bool
  timeupdate_listeners :: "listener list"
  ended_listeners :: "nat list"
  cleanup :: "nat option"
  render :: nat

text \<open>
  The cleanup of the effect as run in render \<open>n\<close>:
  \<^verbatim>\<open>
  return () => {
    if (audioRef.current) {
      audioRef.current.removeEventListener('timeupdate', handleTimeUpdate);
      audioRef.current.removeEventListener('ended', handleEnded);
    }
  };
  \<close>
  It removes the two functions of render \<open>n\<close>, if they are listeners.
\<close>

definition runCleanup :: "nat \<Rightarrow> component \<Rightarrow> component" where
  "runCleanup n c =
     (case audioRef (state c) of
        None \<Rightarrow> c
      | Some a \<Rightarrow>
          c\<lparr>timeupdate_listeners := filter (\<lambda>h. made_in h \<noteq> n) (timeupdate_listeners c),
            ended_listeners := filter (\<lambda>m. m \<noteq> n) (ended_listeners c)\<rparr>)"

text \<open>
  The body of the effect, run in the latest render:
  \<^verbatim>\<open>
  useEffect(() => {
    if (!episode) {
      setIsPlaying(false);
      setCurrentTime(0);
      setShowUpgradePrompt(false);
      if (audioRef.current) {
        audioRef.current.pause();
        audioRef.current.currentTime = 0;
      }
      return;
    }
    if (!audioRef.current) {
      audioRef.current = new Audio();
      audioRef.current.addEventListener('timeupdate', handleTimeUpdate);
      audioRef.current.addEventListener('ended', handleEnded);
    }
    audioRef.current.src = episode.audioUrl;
    setIsPlaying(true);
    audioRef.current.play();
    return () => { ... };
  }, [episode]);
  \<close>
  The listeners are added only when the element is made. A new element is paused at
  position 0 with no source; an element given a new source starts again from 0.
\<close>

definition runEffect :: "component \<Rightarrow> component" where
  "runEffect c =
     (case given_episode c of
        None \<Rightarrow>
          c\<lparr>state := (state c)
                 \<lparr>isPlaying := False, currentTime := 0, showUpgradePrompt := False,
                  audioRef := map_option (\<lambda>a. a\<lparr>paused := True, position := 0\<rparr>)
                                (audioRef (state c))\<rparr>,
            cleanup := None\<rparr>
      | Some ep \<Rightarrow>
          let c1 = (case audioRef (state c) of
                      None \<Rightarrow>
                        c\<lparr>state := (state c)
                               \<lparr>audioRef := Some \<lparr>src = [], paused = True, position = 0\<rparr>\<rparr>,
                          timeupdate_listeners :=
                            [\<lparr>made_in = render c, held_isPremium = hook_isPremium c\<rparr>],
                          ended_listeners := [render c]\<rparr>
                    | Some a \<Rightarrow> c)
          in c1\<lparr>state := (state c1)
                   \<lparr>audioRef := map_option (\<lambda>a. a\<lparr>src := audioUrl ep, position := 0, paused := False\<rparr>)
                                 (audioRef (state c1)),
                    isPlaying := True\<rparr>,
                cleanup := Some (render c)\<rparr>)"

text \<open>
  What happens to the mounted component. The parent gives it another episode (or
  none): it renders, the cleanup of the last run of the effect runs, and the effect runs
  again, since \<^verbatim>\<open>episode\<close> is its only dependency. The hook gets another \<open>isPremium\<close>:
  it renders, and the effect does not run. The element reports a time update at
  position \<open>t\<close>, or its end: its listeners run. The user clicks on the button, on the
  progress bar or on the cross: the handler of the latest render runs, with the
  \<open>isPremium\<close> and the episode of that render; the cross also has the parent take the
  episode away.
\<close>

datatype player_event =
    SelectEpisode "episode option"
  | PremiumChanged bool
  | TimeUpdate real
  | Ended
  | TogglePlayPause
  | ProgressClick click
  | ClosePlayer

definition selectEpisode :: "episode option \<Rightarrow> component \<Rightarrow> component" where
  "selectEpisode ep c =
     (let c1 = c\<lparr>given_episode := ep, render := render c + 1\<rparr>;
          c2 = (case cleanup c1 of None \<Rightarrow> c1 | Some n \<Rightarrow> runCleanup n c1)
      in runEffect c2)"

definition timeupdateEvent :: "real \<Rightarrow> component \<Rightarrow> component" where
  "timeupdateEvent t c =
     (case audioRef (state c) of
        None \<Rightarrow> c
      | Some a \<Rightarrow>
          c\<lparr>state := foldl (\<lambda>s h. handleTimeUpdate (held_isPremium h) s)
                          ((state c)\<lparr>audioRef := Some (a\<lparr>position := t\<rparr>)\<rparr>)
                          (timeupdate_listeners c)\<rparr>)"

definition endedEvent :: "component \<Rightarrow> component" where
  "endedEvent c = c\<lparr>state := foldl (\<lambda>s n. handleEnded s) (state c) (ended_listeners c)\<rparr>"

fun react :: "player_event \<Rightarrow> component \<Rightarrow> component" where
  "react (SelectEpisode ep) c = selectEpisode ep c"
| "react (PremiumChanged b) c = c\<lparr>hook_isPremium := b, render := render c + 1\<rparr>"
| "react (TimeUpdate t) c = timeupdateEvent t c"
| "react Ended c = endedEvent c"
| "react TogglePlayPause c =
     c\<lparr>state := togglePlayPause (hook_isPremium c) (given_episode c) (state c)\<rparr>"
| "react (ProgressClick e) c =
     c\<lparr>state := handleProgressClick (hook_isPremium c) (given_episode c) e (state c)\<rparr>"
| "react ClosePlayer c = selectEpisode None (c\<lparr>state := handleClosePlayer (state c)\<rparr>)"

fun run :: "player_event list \<Rightarrow> component \<Rightarrow> component" where
  "run [] c = c"
| "run (ev # evs) c = run evs (react ev c)"

text \<open>
  The component after it has mounted with no episode, as the podcasts page mounts it,
  when the hook says \<open>isPremium\<close>: the first render and the first run of the effect.
\<close>

definition mount :: "bool \<Rightarrow> component" where
  "mount isPremium =
     runEffect
       \<lparr>state = \<lparr>isPlaying = False, currentTime = 0, showUpgradePrompt = False, audioRef = None\<rparr>,
        given_episode = None, hook_isPremium = isPremium,
        timeupdate_listeners = [], ended_listeners = [], cleanup = None, render = 0\<rparr>"



section \<open>Example inputs\<close>

text \<open>
  A form that passes validation (a title of 10 characters, a summary of 20, a content
  of 100), a signed-in user and a configured environment.
\<close>

definition sampleForm :: form_data where
  "sampleForm =
     \<lparr>title = ''City votes'',
      summary = ''Turnout was so high.'',
      content = ''Polling stations in every ward stayed open until late evening and counting began as soon as it shut.'',
      imageUrl = ''https://a.io/b.jpg'',
      category = ''politics'',
      source = ''Cambliss Community'',
      tags = ''vote, city''\<rparr>"

definition sampleState :: modal where
  "sampleState = \<lparr>formData = sampleForm, isSubmitting = False, error = [], success = False\<rparr>"

definition sampleUser :: user_profile where
  "sampleUser = \<lparr>user_id = ''u1'', fullName = ''Asha Rao'', publishedStories = Some 3\<rparr>"

definition sampleEnv :: submit_env where
  "sampleEnv =
     \<lparr>isAuthenticated = True, user = Some sampleUser, currentLanguage = ''en'',
      supabaseUrl = Some ''https://db.example'', supabaseKey = Some ''anon'',
      now = ''2025-11-06T10:07:01.000Z''\<rparr>"

text \<open>
  A player in the middle of a preview (the last time update was at 59.9 seconds), an
  episode of 754 seconds, and a click in the middle of a progress bar 100 pixels wide.
\<close>

definition playing :: player where
  "playing =
     \<lparr>isPlaying = True, currentTime = 59.9, showUpgradePrompt = False,
      audioRef = Some \<lparr>src = ''https://fakeaudio.com/1.mp3'', paused = False, position = 59.9\<rparr>\<rparr>"

definition sampleEpisode :: episode where
  "sampleEpisode =
     \<lparr>episode_id = ''1'', episode_title = ''City votes (Audio)'', duration = 754,
      audioUrl = ''https://fakeaudio.com/1.mp3''\<rparr>"

text \<open>Another episode, for a listener who goes on to a second one.\<close>

definition secondEpisode :: episode where
  "secondEpisode =
     \<lparr>episode_id = ''2'', episode_title = ''Monsoon arrives (Audio)'', duration = 901,
      audioUrl = ''https://fakeaudio.com/2.mp3''\<rparr>"

definition middleClick :: click where
  "middleClick = \<lparr>clientX = 150, rect_left = 100, rect_width = 100\<rparr>"

text \<open>A field of \<open>n\<close> characters: white space and then one letter.\<close>

definition padded :: "nat \<Rightarrow> string" where
  "padded n = replicate (n - 1) (CHR '' '') @ ''X''"

text \<open>A field of \<open>n\<close> characters, all of them spaces.\<close>

definition blank :: "nat \<Rightarrow> string" where
  "blank n = replicate n (CHR '' '')"

section \<open>Facts about strings\<close>

lemma isSpace_space: "isSpace CHR '' ''"
  by (simp add: isSpace_def)

lemma endsSpace_Cons: "endsSpace b (c # cs) = endsSpace (isSpace c) cs"
  by (simp add: endsSpace_def)

lemma length_splitWs:
  "length (splitWs b acc s) + (if b \<and> \<not> endsSpace b s then 1 else 0)
     = countWords b s + 1 + (if \<not> b \<and> endsSpace b s then 1 else 0)"
proof (induction s arbitrary: b acc)
  case Nil
  show ?case by (simp add: endsSpace_def)
next
  case (Cons c cs)
  show ?case
  proof (cases "isSpace c")
    case True
    with Cons.IH [of True "[]"] show ?thesis
      by (cases b) (auto simp: endsSpace_Cons split: if_splits)
  next
    case False
    with Cons.IH [of False "c # acc"] show ?thesis
      by (cases b) (auto simp: endsSpace_Cons split: if_splits)
  qed
qed

lemma countWords_dropWhile: "countWords True (dropWhile isSpace s) = countWords True s"
  by (induction s) simp_all

lemma countWords_spaces: "\<forall>c\<in>set ys. isSpace c \<Longrightarrow> countWords b ys = 0"
  by (induction ys arbitrary: b) simp_all

lemma countWords_append_spaces:
  "\<forall>c\<in>set ys. isSpace c \<Longrightarrow> countWords b (xs @ ys) = countWords b xs"
  by (induction xs arbitrary: b) (simp_all add: countWords_spaces)

lemma strip_right_decomp:
  "rev (dropWhile P (rev s)) @ rev (takeWhile P (rev s)) = s"
proof -
  have "rev (takeWhile P (rev s) @ dropWhile P (rev s)) = s" by simp
  then show ?thesis by (simp only: rev_append)
qed

lemma countWords_strip_right:
  "countWords b (rev (dropWhile isSpace (rev s))) = countWords b s"
proof -
  have "\<forall>c\<in>set (rev (takeWhile isSpace (rev s))). isSpace c"
    by (auto dest: set_takeWhileD)
  from countWords_append_spaces [OF this, of b "rev (dropWhile isSpace (rev s))"]
  show ?thesis by (simp only: strip_right_decomp)
qed

lemma countWords_trim: "countWords True (trim s) = countWords True s"
  by (simp add: trim_def countWords_strip_right countWords_dropWhile)

lemma trim_last: "trim s \<noteq> [] \<Longrightarrow> \<not> isSpace (last (trim s))"
proof -
  assume ne: "trim s \<noteq> []"
  let ?r = "dropWhile isSpace (rev (dropWhile isSpace s))"
  from ne have "?r \<noteq> []" by (simp add: trim_def)
  then have "\<not> isSpace (hd ?r)" by (rule hd_dropWhile)
  moreover from \<open>?r \<noteq> []\<close> have "last (rev ?r) = hd ?r" by (simp add: last_rev)
  ultimately show ?thesis by (simp add: trim_def)
qed

lemma endsSpace_trim: "\<not> endsSpace False (trim s)"
  using trim_last [of s] by (auto simp: endsSpace_def)

lemma trim_hd: "trim s \<noteq> [] \<Longrightarrow> \<not> isSpace (hd (trim s))"
proof -
  assume ne: "trim s \<noteq> []"
  let ?d = "dropWhile isSpace s"
  have d: "?d = trim s @ rev (takeWhile isSpace (rev ?d))"
    unfolding trim_def by (simp only: strip_right_decomp)
  with ne have "?d \<noteq> []" by (metis append_is_Nil_conv)
  then have "\<not> isSpace (hd ?d)" by (rule hd_dropWhile)
  moreover from d ne have "hd ?d = hd (trim s)" by (metis hd_append2)
  ultimately show ?thesis by simp
qed

lemma length_split_trim:
  "length (split_whitespace (trim s)) = max 1 (word_count_spec s)"
proof -
  let ?t = "trim s"
  have len: "length (split_whitespace ?t) = countWords False ?t + 1"
    using length_splitWs [of False "[]" ?t] endsSpace_trim [of s]
    by (simp add: split_whitespace_def)
  show ?thesis
  proof (cases ?t)
    case Nil
    with countWords_trim [of s] len show ?thesis
      by (simp add: word_count_spec_def)
  next
    case (Cons c cs)
    with trim_hd [of s] have "\<not> isSpace c" by simp
    with Cons have "countWords True ?t = countWords False ?t + 1" by simp
    with countWords_trim [of s] len show ?thesis
      by (simp add: word_count_spec_def)
  qed
qed

lemma ceiling_max_one:
  "\<lceil>real (max 1 n) / 200\<rceil> = max 1 \<lceil>real n / 200\<rceil>"
proof (cases "n = 0")
  case True
  have "\<lceil>(1::real) / 200\<rceil> = (1::int)" by (rule ceiling_unique) simp_all
  with True show ?thesis by simp
next
  case False
  then have "0 < real n / 200" by simp
  then have "1 \<le> \<lceil>real n / 200\<rceil>" by (simp add: Suc_le_eq)
  with False show ?thesis by (simp add: max_def)
qed

lemma calculateReadTime_refines: "calculateReadTime text = read_time_spec text"
  using ceiling_max_one [of "word_count_spec text"]
  by (simp add: calculateReadTime_def read_time_spec_def length_split_trim
      wordsPerMinute_def Let_def)

lemma countWords_replicate:
  "countWords True (concat (replicate n ''news '')) = n"
  by (induction n) (simp_all add: isSpace_def)

section \<open>Facts about regular expressions\<close>

lemma nullable_lang: "nullable r \<longleftrightarrow> [] \<in> lang r"
  by (induction r) (auto intro: star_nil)

lemma star_Cons:
  "c # w \<in> star A \<longleftrightarrow> (\<exists>u v. w = u @ v \<and> c # u \<in> A \<and> v \<in> star A)"
proof
  assume "c # w \<in> star A"
  then show "\<exists>u v. w = u @ v \<and> c # u \<in> A \<and> v \<in> star A"
  proof (induction "c # w" rule: star.induct)
    case (star_app u v)
    show ?case
    proof (cases u)
      case Nil
      with star_app show ?thesis by simp
    next
      case (Cons d u')
      with star_app.hyps show ?thesis by auto
    qed
  qed
next
  assume "\<exists>u v. w = u @ v \<and> c # u \<in> A \<and> v \<in> star A"
  then obtain u v where "w = u @ v" "c # u \<in> A" "v \<in> star A" by blast
  then show "c # w \<in> star A" using star_app [of "c # u" A v] by simp
qed

lemma lang_deriv: "w \<in> lang (deriv c r) \<longleftrightarrow> c # w \<in> lang r"
proof (induction r arbitrary: w)
  case (Seq r s)
  have "c # w \<in> lang (Seq r s) \<longleftrightarrow>
        (\<exists>u v. w = u @ v \<and> c # u \<in> lang r \<and> v \<in> lang s) \<or> ([] \<in> lang r \<and> c # w \<in> lang s)"
    by (auto simp: Cons_eq_append_conv) 
  with Seq show ?case by (auto simp: nullable_lang)
next
  case (Star r)
  then show ?case by (auto simp: star_Cons)
qed auto

lemma matchPrefix_lang:
  "matchPrefix r s \<longleftrightarrow> (\<exists>p t. s = p @ t \<and> p \<in> lang r)"
proof (induction s arbitrary: r)
  case Nil
  show ?case by (simp add: nullable_lang)
next
  case (Cons c cs)
  have "(\<exists>p t. c # cs = p @ t \<and> p \<in> lang r) \<longleftrightarrow>
        [] \<in> lang r \<or> (\<exists>p t. cs = p @ t \<and> c # p \<in> lang r)"
    by (auto simp: Cons_eq_append_conv)
  with Cons show ?case by (simp add: nullable_lang lang_deriv)
qed

lemma lang_Chr_Seq:
  "w \<in> lang (Seq (Chr P) r) \<longleftrightarrow> (\<exists>c v. w = c # v \<and> P c \<and> v \<in> lang r)"
proof
  assume "w \<in> lang (Seq (Chr P) r)"
  then show "\<exists>c v. w = c # v \<and> P c \<and> v \<in> lang r" by auto
next
  assume "\<exists>c v. w = c # v \<and> P c \<and> v \<in> lang r"
  then obtain c v where "w = [c] @ v" "P c" "v \<in> lang r" by auto
  then show "w \<in> lang (Seq (Chr P) r)" unfolding lang.simps by blast
qed

lemma lang_lit_ci: "lang (lit_ci w) = {u. map canonicalize u = map canonicalize w}"
proof (induction w)
  case Nil
  show ?case by simp
next
  case (Cons c cs)
  show ?case
  proof (rule set_eqI)
    fix u
    show "u \<in> lang (lit_ci (c # cs)) \<longleftrightarrow> u \<in> {u. map canonicalize u = map canonicalize (c # cs)}"
      by (cases u) (auto simp: Cons chr_ci_def lang_Chr_Seq simp del: lang.simps)
  qed
qed

lemma star_chars: "star {[c] | c. P c} = {u. \<forall>c\<in>set u. P c}"
proof (rule set_eqI)
  fix u
  have "u \<in> star {[c] | c. P c} \<Longrightarrow> \<forall>c\<in>set u. P c"
    by (induction rule: star.induct) auto
  moreover have "\<forall>c\<in>set u. P c \<Longrightarrow> u \<in> star {[c] | c. P c}"
  proof (induction u)
    case Nil
    show ?case by (rule star_nil)
  next
    case (Cons d ds)
    then have "[d] \<in> {[c] | c. P c}" "ds \<in> star {[c] | c. P c}" by auto
    from star_app [OF this] show ?case by simp
  qed
  ultimately show "u \<in> star {[c] | c. P c} \<longleftrightarrow> u \<in> {u. \<forall>c\<in>set u. P c}" by blast
qed

lemma lang_Plus_dot: "lang (Plus dot) = {u. u \<noteq> [] \<and> (\<forall>c\<in>set u. \<not> lineTerminator c)}"
proof (rule set_eqI)
  fix u
  show "u \<in> lang (Plus dot) \<longleftrightarrow> u \<in> {u. u \<noteq> [] \<and> (\<forall>c\<in>set u. \<not> lineTerminator c)}"
    by (cases u) (auto simp: Plus_def dot_def lang_Chr_Seq star_chars simp del: lang.simps(5))
qed

lemma canonicalize_upper:
  "canonicalize c = d \<Longrightarrow> d \<notin> set ''ABCDEFGHIJKLMNOPQRSTUVWXYZ'' \<Longrightarrow> c = d"
proof -
  assume eq: "canonicalize c = d" and d: "d \<notin> set ''ABCDEFGHIJKLMNOPQRSTUVWXYZ''"
  let ?m = "map_of (zip ''abcdefghijklmnopqrstuvwxyz'' ''ABCDEFGHIJKLMNOPQRSTUVWXYZ'')"
  show "c = d"
  proof (cases "?m c")
    case None
    with eq show ?thesis by (simp add: canonicalize_def)
  next
    case (Some u)
    then have "u \<in> set ''ABCDEFGHIJKLMNOPQRSTUVWXYZ''"
      by (blast dest: map_of_SomeD set_zip_rightD)
    moreover from Some eq have "u = d" by (simp add: canonicalize_def)
    ultimately show ?thesis using d by simp
  qed
qed

lemma canonicalize_fixed:
  "d \<notin> set ''ABCDEFGHIJKLMNOPQRSTUVWXYZ'' \<Longrightarrow> canonicalize d = d \<Longrightarrow>
   canonicalize c = d \<longleftrightarrow> c = d"
  using canonicalize_upper [of c d] by blast

lemma canon_http: "map canonicalize ''http'' = ''HTTP''"
  by (simp add: canonicalize_def)

lemma canon_s: "canonicalize CHR ''s'' = CHR ''S''"
  by (simp add: canonicalize_def)

lemma lang_SeqI: "u \<in> lang r \<Longrightarrow> v \<in> lang s \<Longrightarrow> u @ v \<in> lang (Seq r s)"
  unfolding lang.simps by blast

lemma lang_SeqE:
  assumes "w \<in> lang (Seq r s)"
  obtains u v where "w = u @ v" "u \<in> lang r" "v \<in> lang s"
  using assms unfolding lang.simps by blast

lemma lang_Opt_s:
  "y \<in> lang (Opt (chr_ci CHR ''s'')) \<longleftrightarrow> y = [] \<or> (\<exists>c. y = [c] \<and> canonicalize c = CHR ''S'')"
  by (auto simp: Opt_def chr_ci_def canon_s)

lemma lang_http: "x \<in> lang (lit_ci ''http'') \<longleftrightarrow> map canonicalize x = ''HTTP''"
  by (simp only: lang_lit_ci canon_http mem_Collect_eq)

lemma lang_scheme:
  "u \<in> lang (Seq (lit_ci ''http'') (Opt (chr_ci CHR ''s''))) \<longleftrightarrow> isHttpScheme u"
proof
  assume "u \<in> lang (Seq (lit_ci ''http'') (Opt (chr_ci CHR ''s'')))"
  then obtain x y where u: "u = x @ y" and x: "x \<in> lang (lit_ci ''http'')"
    and y: "y \<in> lang (Opt (chr_ci CHR ''s''))"
    by (rule lang_SeqE)
  from x have cx: "map canonicalize x = ''HTTP''" by (simp only: lang_http)
  from y have "y = [] \<or> (\<exists>c. y = [c] \<and> canonicalize c = CHR ''S'')"
    by (simp only: lang_Opt_s)
  with u cx show "isHttpScheme u" by (auto simp: isHttpScheme_def)
next
  assume "isHttpScheme u"
  then consider "map canonicalize u = ''HTTP''" | "map canonicalize u = ''HTTPS''"
    unfolding isHttpScheme_def by blast
  then show "u \<in> lang (Seq (lit_ci ''http'') (Opt (chr_ci CHR ''s'')))"
  proof cases
    case 1
    then have "u \<in> lang (lit_ci ''http'')" by (simp only: lang_http)
    moreover have "[] \<in> lang (Opt (chr_ci CHR ''s''))" by (simp only: lang_Opt_s) simp
    ultimately have "u @ [] \<in> lang (Seq (lit_ci ''http'') (Opt (chr_ci CHR ''s'')))"
      by (rule lang_SeqI)
    then show ?thesis by (simp only: append_Nil2)
  next
    case 2
    then have ne: "u \<noteq> []" by auto
    have "map canonicalize (butlast u) = butlast (map canonicalize u)" by (rule map_butlast)
    with 2 have "map canonicalize (butlast u) = ''HTTP''" by simp
    then have b: "butlast u \<in> lang (lit_ci ''http'')" by (simp only: lang_http)
    from ne have "canonicalize (last u) = last (map canonicalize u)" by (simp add: last_map)
    with 2 have "canonicalize (last u) = CHR ''S''" by simp
    then have l: "[last u] \<in> lang (Opt (chr_ci CHR ''s''))" by (simp only: lang_Opt_s) simp
    from ne have "butlast u @ [last u] = u" by (rule append_butlast_last_id)
    with lang_SeqI [OF b l] show ?thesis by simp
  qed
qed

lemma in_lang_Seq:
  "w \<in> lang (Seq r s) \<longleftrightarrow> (\<exists>u v. w = u @ v \<and> u \<in> lang r \<and> v \<in> lang s)"
  unfolding lang.simps by blast

lemma canon_colon: "canonicalize c = CHR '':'' \<longleftrightarrow> c = CHR '':''"
  by (rule canonicalize_fixed) (simp_all add: canonicalize_def)

lemma canon_slash: "canonicalize c = CHR ''/'' \<longleftrightarrow> c = CHR ''/''"
  by (rule canonicalize_fixed) (simp_all add: canonicalize_def)

lemma canon_period: "canonicalize c = CHR ''.'' \<longleftrightarrow> c = CHR ''.''"
  by (rule canonicalize_fixed) (simp_all add: canonicalize_def)

lemma lang_sep: "x \<in> lang (lit_ci ''://'') \<longleftrightarrow> x = ''://''"
proof -
  have "map canonicalize ''://'' = ''://''" by (simp add: canonicalize_def)
  then have "x \<in> lang (lit_ci ''://'') \<longleftrightarrow> map canonicalize x = ''://''"
    by (simp only: lang_lit_ci mem_Collect_eq)
  also have "\<dots> \<longleftrightarrow> x = ''://''"
    by (auto simp: map_eq_Cons_conv canon_colon canon_slash)
  finally show ?thesis .
qed

lemma lang_imageExtensions: "e \<in> lang imageExtensions \<longleftrightarrow> isImageExt e"
proof -
  have "map canonicalize ''jpg'' = ''JPG''" "map canonicalize ''jpeg'' = ''JPEG''"
    "map canonicalize ''png'' = ''PNG''" "map canonicalize ''gif'' = ''GIF''"
    "map canonicalize ''webp'' = ''WEBP''"
    by (simp_all add: canonicalize_def)
  then show ?thesis
    unfolding imageExtensions_def isImageExt_def lang.simps(4) lang_lit_ci by auto
qed

lemma lang_period_ext:
  "x \<in> lang (Seq (chr_ci CHR ''.'') imageExtensions) \<longleftrightarrow> (\<exists>e. x = ''.'' @ e \<and> isImageExt e)"
proof -
  have period: "canonicalize CHR ''.'' = CHR ''.''" by (simp add: canonicalize_def)
  show ?thesis
    unfolding chr_ci_def lang_Chr_Seq lang_imageExtensions
    by (auto simp: period canon_period)
qed

lemma lang_Seq4:
  "p \<in> lang (Seq A (Seq B (Seq C D))) \<longleftrightarrow>
     (\<exists>a b c d. p = a @ b @ c @ d \<and> a \<in> lang A \<and> b \<in> lang B \<and> c \<in> lang C \<and> d \<in> lang D)"
  unfolding in_lang_Seq by blast

lemma lang_imageUrlPattern:
  "p \<in> lang imageUrlPattern \<longleftrightarrow>
     (\<exists>scheme body ext. p = scheme @ ''://'' @ body @ ''.'' @ ext \<and> isHttpScheme scheme \<and>
        body \<noteq> [] \<and> (\<forall>c\<in>set body. \<not> lineTerminator c) \<and> isImageExt ext)"
proof -
  have "p \<in> lang imageUrlPattern \<longleftrightarrow>
      (\<exists>a b c d. p = a @ b @ c @ d \<and> isHttpScheme a \<and> b = ''://'' \<and>
         (c \<noteq> [] \<and> (\<forall>x\<in>set c. \<not> lineTerminator x)) \<and> (\<exists>e. d = ''.'' @ e \<and> isImageExt e))"
    by (simp only: imageUrlPattern_def lang_Seq4 lang_scheme lang_sep lang_Plus_dot
        lang_period_ext mem_Collect_eq)
  also have "\<dots> \<longleftrightarrow> (\<exists>scheme body ext. p = scheme @ ''://'' @ body @ ''.'' @ ext \<and>
        isHttpScheme scheme \<and> body \<noteq> [] \<and> (\<forall>c\<in>set body. \<not> lineTerminator c) \<and> isImageExt ext)"
    by blast
  finally show ?thesis .
qed

lemmas isImageUrl_eval = isImageUrl_def imageUrlPattern_def imageExtensions_def Opt_def Plus_def
  dot_def chr_ci_def canonicalize_def lineTerminator_def

lemma sampleUrl_ok: "isImageUrl ''https://a.io/b.jpg''"
  by (simp add: isImageUrl_eval)

lemma isImageUrl_shape:
  "isImageUrl s \<longleftrightarrow>
     (\<exists>scheme body ext rest. s = scheme @ ''://'' @ body @ ''.'' @ ext @ rest \<and>
        isHttpScheme scheme \<and> body \<noteq> [] \<and> (\<forall>c\<in>set body. \<not> lineTerminator c) \<and>
        isImageExt ext)"
proof -
  have "isImageUrl s \<longleftrightarrow> (\<exists>p t. s = p @ t \<and> p \<in> lang imageUrlPattern)"
    by (simp only: isImageUrl_def matchPrefix_lang)
  also have "\<dots> \<longleftrightarrow> (\<exists>scheme body ext rest. s = scheme @ ''://'' @ body @ ''.'' @ ext @ rest \<and>
        isHttpScheme scheme \<and> body \<noteq> [] \<and> (\<forall>c\<in>set body. \<not> lineTerminator c) \<and>
        isImageExt ext)"
    unfolding lang_imageUrlPattern by (simp only: append_assoc [symmetric]) blast
  finally show ?thesis .
qed

lemma longerUrl_ok: "isImageUrl ''https://a.io/b.jpg.html''"
  by (simp add: isImageUrl_eval)

lemma sampleUrl_spec: "isHttpUrl ''https://a.io/b.jpg'' \<and> endsWithImageExt ''https://a.io/b.jpg''"
  by (simp add: isHttpUrl_def endsWithImageExt_def canonicalize_def suffix_Cons)

lemma longerUrl_spec: "\<not> endsWithImageExt ''https://a.io/b.jpg.html''"
  by (simp add: endsWithImageExt_def canonicalize_def suffix_Cons)

section \<open>Facts about validation and submission\<close>

lemma passes_all: "(\<forall>c. passes c fd) \<longleftrightarrow> titleCheck fd \<and> summaryCheck fd \<and> contentCheck fd \<and> imageUrlCheck fd"
proof
  assume "\<forall>c. passes c fd"
  then have "passes TitleCheck fd" "passes SummaryCheck fd" "passes ContentCheck fd" "passes ImageUrlCheck fd"
    by blast+
  then show "titleCheck fd \<and> summaryCheck fd \<and> contentCheck fd \<and> imageUrlCheck fd"
    by (simp add: passes_def)
next
  assume a: "titleCheck fd \<and> summaryCheck fd \<and> contentCheck fd \<and> imageUrlCheck fd"
  show "\<forall>c. passes c fd"
  proof
    fix c show "passes c fd" using a by (cases c) (simp_all add: passes_def)
  qed
qed

lemma validateForm_ok:
  "snd (validateForm s) \<longleftrightarrow>
     titleCheck (formData s) \<and> summaryCheck (formData s) \<and> contentCheck (formData s) \<and>
     imageUrlCheck (formData s)"
  by (simp add: validateForm_def Let_def titleCheck_def summaryCheck_def contentCheck_def
      imageUrlCheck_def not_less)

lemma validateForm_first:
  "validateForm s =
     (case firstFailing (formData s) of
        None \<Rightarrow> (s, True)
      | Some c \<Rightarrow> (s\<lparr>error := checkMessage c (formData s)\<rparr>, False))"
  by (simp add: validateForm_def Let_def firstFailing_def passes_def checkMessage_def
      titleCheck_def summaryCheck_def contentCheck_def imageUrlCheck_def not_less not_le)

lemma sample_valid: "validateForm sampleState = (sampleState, True)"
  by (simp add: validateForm_def Let_def sampleState_def sampleForm_def trim_def isSpace_def sampleUrl_ok)

lemma validateForm_true: "snd (validateForm s) \<Longrightarrow> validateForm s = (s, True)"
  by (simp add: validateForm_def Let_def split: if_splits)

lemma validateForm_false:
  "\<not> snd (validateForm s) \<Longrightarrow> validateForm s = (s\<lparr>error := error (fst (validateForm s))\<rparr>, False)"
  by (simp add: validateForm_def Let_def split: if_splits)

lemma trim_leading_spaces: "trim (replicate n (CHR '' '') @ w) = trim w"
proof -
  have "dropWhile isSpace (replicate n (CHR '' '') @ w) = dropWhile isSpace w"
    by (induction n) (simp_all add: isSpace_space)
  then show ?thesis by (simp add: trim_def)
qed

lemma trim_blank: "trim (blank n) = []"
proof -
  have "dropWhile isSpace (replicate n (CHR '' '')) = []"
    by (induction n) (simp_all add: isSpace_space)
  then show ?thesis by (simp add: trim_def blank_def)
qed

lemma trim_X: "trim ''X'' = ''X''"
  by (simp add: trim_def isSpace_def)

lemma sample_checks:
  "titleCheck sampleForm" "summaryCheck sampleForm" "contentCheck sampleForm" "imageUrlCheck sampleForm"
  using sample_valid validateForm_ok [of sampleState] by (simp_all add: sampleState_def)

lemma handleSubmit_invalid:
  "\<not> snd (validateForm s) \<Longrightarrow> snd (handleSubmit env res s) = []"
proof -
  assume "\<not> snd (validateForm s)"
  then have v: "validateForm s = (s\<lparr>error := error (fst (validateForm s))\<rparr>, False)"
    by (rule validateForm_false)
  show ?thesis
    by (subst handleSubmit_def, subst v) (simp split: option.splits)
qed

lemma handleSubmit_ready:
  assumes "user env = Some u" "isAuthenticated env" "snd (validateForm s)"
    "config env = Some (url, key)"
  shows "handleSubmit env res s =
     (let s2 = s\<lparr>isSubmitting := True, error := []\<rparr>;
          request = Fetch (url @ ''/rest/v1/user_articles'') key (newArticle env u (formData s))
      in case res of
           FetchThrows msg \<Rightarrow> catchError msg s2 [request]
         | Response ok body \<Rightarrow>
             if \<not> ok
             then (case body of
                     JsonThrows msg \<Rightarrow> catchError msg s2 [request]
                   | JsonValue message \<Rightarrow>
                       catchError (orElse message ''Failed to publish article'') s2 [request])
             else (case body of
                     JsonThrows msg \<Rightarrow> catchError msg s2 [request]
                   | JsonValue createdArticle \<Rightarrow>
                       (s2\<lparr>success := True, isSubmitting := False\<rparr>,
                        [request, AddCamblissPoints 50 ''Published news article''] @
                        (case publishedStories u of
                           None \<Rightarrow> []
                         | Some n \<Rightarrow>
                             [SetItem ''cambliss-user'' (u\<lparr>publishedStories := Some (n + 1)\<rparr>)]) @
                        [SetTimeout 2000])))"
  using assms validateForm_true [of s]
  by (simp add: handleSubmit_def Let_def split: fetch_result.splits json_result.splits)

lemma newArticle_trims:
  "a_title (newArticle env u fd) = trim (title fd) \<and>
   a_summary (newArticle env u fd) = trim (summary fd) \<and>
   a_content (newArticle env u fd) = trim (content fd)"
  by (simp add: newArticle_def)

lemma validateForm_lengths:
  "snd (validateForm s) \<Longrightarrow>
   10 \<le> length (title (formData s)) \<and> 20 \<le> length (summary (formData s)) \<and>
   100 \<le> length (content (formData s))"
  by (simp add: validateForm_ok titleCheck_def summaryCheck_def contentCheck_def)

lemma trim_padded: "trim (padded n) = ''X''"
  by (simp add: padded_def trim_leading_spaces trim_X)

lemma length_padded: "0 < n \<Longrightarrow> length (padded n) = n"
  by (simp add: padded_def)

lemma padded_title_valid:
  "snd (validateForm (sampleState\<lparr>formData := sampleForm\<lparr>title := padded 10\<rparr>\<rparr>))"
  using sample_checks
  by (simp add: validateForm_ok titleCheck_def summaryCheck_def contentCheck_def imageUrlCheck_def
      trim_padded length_padded)

lemma padded_summary_valid:
  "snd (validateForm (sampleState\<lparr>formData := sampleForm\<lparr>summary := padded 20\<rparr>\<rparr>))"
  using sample_checks
  by (simp add: validateForm_ok titleCheck_def summaryCheck_def contentCheck_def imageUrlCheck_def
      trim_padded length_padded)

lemma padded_content_valid:
  "snd (validateForm (sampleState\<lparr>formData := sampleForm\<lparr>content := padded 100\<rparr>\<rparr>))"
  using sample_checks
  by (simp add: validateForm_ok titleCheck_def summaryCheck_def contentCheck_def imageUrlCheck_def
      trim_padded length_padded)

lemma sample_config: "config sampleEnv = Some (''https://db.example'', ''anon'')"
  by (simp add: config_def sampleEnv_def falsy_def)

lemma sample_user: "user sampleEnv = Some sampleUser" "isAuthenticated sampleEnv"
  by (simp_all add: sampleEnv_def)

lemma sample_ok: "snd (validateForm sampleState)"
  by (simp add: sample_valid)

section \<open>Facts about the player\<close>

lemma handleTimeUpdate_premium:
  "handleTimeUpdate True s =
     (case audioRef s of None \<Rightarrow> s | Some a \<Rightarrow> s\<lparr>currentTime := position a\<rparr>)"
  by (simp add: handleTimeUpdate_def Let_def split: option.splits)

lemmas component_eval = mount_def runEffect_def selectEpisode_def runCleanup_def
  timeupdateEvent_def endedEvent_def handleTimeUpdate_def handleEnded_def togglePlayPause_def
  handleProgressClick_def handleClosePlayer_def FREE_LIMIT_def Let_def











lemmas samples_eval = sampleEpisode_def secondEpisode_def

section \<open>Read time\<close>

text \<open>
  C8. For every content string the computed read time is the larger of 1 and the number
  of whitespace-separated words divided by 200 and rounded up. A text of 400 words
  gives 2 minutes, a text of one word gives 1 minute.
\<close>

theorem calculateReadTime_words:
  "calculateReadTime text = max 1 \<lceil>real (word_count_spec text) / 200\<rceil> \<and>
   (word_count_spec text = 400 \<longrightarrow> calculateReadTime text = 2) \<and>
   (word_count_spec text = 1 \<longrightarrow> calculateReadTime text = 1)"
proof -
  have "calculateReadTime text = read_time_spec text"
    by (rule calculateReadTime_refines)
  then have general: "calculateReadTime text = max 1 \<lceil>real (word_count_spec text) / 200\<rceil>"
    by (simp only: read_time_spec_def)
  then have "word_count_spec text = 400 \<longrightarrow> calculateReadTime text = 2" by simp
  moreover from general have "word_count_spec text = 1 \<longrightarrow> calculateReadTime text = 1"
    by simp
  ultimately show ?thesis using general by blast
qed

theorem calculateReadTime_words_witness:
  "word_count_spec (concat (replicate 400 ''news '')) = 400 \<and>
   calculateReadTime (concat (replicate 400 ''news '')) = 2 \<and>
   word_count_spec ''Breaking'' = 1 \<and>
   calculateReadTime ''Breaking'' = 1"
proof -
  have many: "word_count_spec (concat (replicate 400 ''news '')) = 400"
    by (simp add: word_count_spec_def countWords_replicate)
  have one: "word_count_spec ''Breaking'' = 1"
    by (simp add: word_count_spec_def isSpace_def)
  from calculateReadTime_words [of "concat (replicate 400 ''news '')"] many
    calculateReadTime_words [of "''Breaking''"] one
  show ?thesis by simp
qed

section \<open>Image URL\<close>

text \<open>
  C4, as stated: the check accepts a string exactly when it is an http or https URL
  that ends in one of the extensions jpg, jpeg, png, gif, webp; so every accepted
  string ends in one of them. The pattern has no anchor at its end, and the string
  below is accepted without ending in an image extension.
\<close>

theorem isImageUrl_accepts_longer:
  "isImageUrl ''https://a.io/b.jpg.html'' \<and> \<not> endsWithImageExt ''https://a.io/b.jpg.html''"
proof -
  have "isImageUrl ''https://a.io/b.jpg.html''" by (simp add: isImageUrl_eval)
  moreover have "\<not> endsWithImageExt ''https://a.io/b.jpg.html''"
    by (simp add: endsWithImageExt_def canonicalize_def suffix_Cons)
  ultimately show ?thesis by simp
qed

text \<open>
  C4, amended: the check accepts a string exactly when it begins with http or https
  in any letter case, then \<^verbatim>\<open>://\<close>, then one or more characters none of which is a
  line terminator, then a dot and one of the extensions jpg, jpeg, png, gif, webp in any
  letter case; any characters may follow the extension.
\<close>

theorem isImageUrl_accepts:
  "isImageUrl s \<longleftrightarrow>
     (\<exists>scheme body ext rest. s = scheme @ ''://'' @ body @ ''.'' @ ext @ rest \<and>
        isHttpScheme scheme \<and> body \<noteq> [] \<and> (\<forall>c\<in>set body. \<not> lineTerminator c) \<and>
        isImageExt ext)"
proof -
  have "isImageUrl s \<longleftrightarrow> (\<exists>p t. s = p @ t \<and> p \<in> lang imageUrlPattern)"
    by (simp only: isImageUrl_def matchPrefix_lang)
  also have "\<dots> \<longleftrightarrow> (\<exists>scheme body ext rest. s = scheme @ ''://'' @ body @ ''.'' @ ext @ rest \<and>
        isHttpScheme scheme \<and> body \<noteq> [] \<and> (\<forall>c\<in>set body. \<not> lineTerminator c) \<and>
        isImageExt ext)"
    unfolding lang_imageUrlPattern by (simp only: append_assoc [symmetric]) blast
  finally show ?thesis .
qed

theorem isImageUrl_accepts_witness:
  "isImageUrl ''https://a.io/b.png?w=1'' \<and>
   (\<exists>scheme body ext rest.
      ''https://a.io/b.png?w=1'' = scheme @ ''://'' @ body @ ''.'' @ ext @ rest \<and>
      isHttpScheme scheme \<and> body \<noteq> [] \<and> (\<forall>c\<in>set body. \<not> lineTerminator c) \<and>
      isImageExt ext)"
proof -
  have "isImageUrl ''https://a.io/b.png?w=1''" by (simp add: isImageUrl_eval)
  with isImageUrl_accepts [of "''https://a.io/b.png?w=1''"] show ?thesis by blast
qed

section \<open>Validation\<close>

text \<open>
  C6, as stated: validation accepts exactly when the four checks of the spec pass, and
  the title check accepts length 10. The form below, whose image URL goes on after the
  extension, is accepted by \<^verbatim>\<open>validateForm\<close> although it fails the fourth check of the
  spec; and a title of ten spaces, which is not empty and has length 10, so that the form
  passes all four checks of the spec, is rejected with the message of an empty title.
\<close>

theorem validateForm_not_as_stated:
  "snd (validateForm (sampleState\<lparr>formData := sampleForm\<lparr>imageUrl := ''https://a.io/b.jpg.html''\<rparr>\<rparr>)) \<and>
   \<not> imageUrlCheck_spec (sampleForm\<lparr>imageUrl := ''https://a.io/b.jpg.html''\<rparr>) \<and>
   \<not> accepts_spec (sampleForm\<lparr>imageUrl := ''https://a.io/b.jpg.html''\<rparr>) \<and>
   length (title (sampleForm\<lparr>title := blank 10\<rparr>)) = 10 \<and>
   titleCheck_spec (sampleForm\<lparr>title := blank 10\<rparr>) \<and>
   accepts_spec (sampleForm\<lparr>title := blank 10\<rparr>) \<and>
   validateForm (sampleState\<lparr>formData := sampleForm\<lparr>title := blank 10\<rparr>\<rparr>) =
     (sampleState\<lparr>formData := sampleForm\<lparr>title := blank 10\<rparr>, error := ''Title is required''\<rparr>,
      False)"
proof -
  have longer: "snd (validateForm
      (sampleState\<lparr>formData := sampleForm\<lparr>imageUrl := ''https://a.io/b.jpg.html''\<rparr>\<rparr>))"
    using sample_checks
    by (simp add: validateForm_ok titleCheck_def summaryCheck_def contentCheck_def
        imageUrlCheck_def longerUrl_ok trim_def isSpace_def)
  have spec: "\<not> imageUrlCheck_spec (sampleForm\<lparr>imageUrl := ''https://a.io/b.jpg.html''\<rparr>)"
    by (simp add: imageUrlCheck_spec_def longerUrl_spec)
  then have nospec: "\<not> accepts_spec (sampleForm\<lparr>imageUrl := ''https://a.io/b.jpg.html''\<rparr>)"
    by (simp add: accepts_spec_def)
  have len: "length (title (sampleForm\<lparr>title := blank 10\<rparr>)) = 10"
    by (simp add: blank_def)
  then have t: "titleCheck_spec (sampleForm\<lparr>title := blank 10\<rparr>)"
    by (auto simp: titleCheck_spec_def)
  have "summaryCheck_spec sampleForm" "contentCheck_spec sampleForm" "imageUrlCheck_spec sampleForm"
    using sampleUrl_spec
    by (simp_all add: summaryCheck_spec_def contentCheck_spec_def imageUrlCheck_spec_def sampleForm_def)
  with t have acc: "accepts_spec (sampleForm\<lparr>title := blank 10\<rparr>)"
    by (simp add: accepts_spec_def summaryCheck_spec_def contentCheck_spec_def imageUrlCheck_spec_def)
  have rej: "validateForm (sampleState\<lparr>formData := sampleForm\<lparr>title := blank 10\<rparr>\<rparr>) =
     (sampleState\<lparr>formData := sampleForm\<lparr>title := blank 10\<rparr>, error := ''Title is required''\<rparr>,
      False)"
    by (simp add: validateForm_def Let_def trim_blank)
  from longer spec nospec len t acc rej show ?thesis by simp
qed

text \<open>
  C6, amended: validation accepts exactly when the four checks of the source pass;
  when one fails, the state gets the message of the first failing check in the order
  title, summary, content, image URL, and nothing else changes. A check of the source
  passes when the field is not white space only and, for title, summary and content, has
  at least 10, 20 and 100 characters as typed; for the image URL, when it begins with
  http or https, \<^verbatim>\<open>://\<close>, one or more characters on one line, a dot and one of the
  image extensions, whatever follows. A title of 9 characters is rejected by the title
  check, and one of 10 characters that is not white space only passes it; a content of
  99 characters is rejected, and one of exactly 100 that is not white space only passes
  the content check.
\<close>

theorem validateForm_first_failure:
  "(snd (validateForm s) \<longleftrightarrow> (\<forall>c. passes c (formData s))) \<and>
   validateForm s =
     (case firstFailing (formData s) of
        None \<Rightarrow> (s, True)
      | Some c \<Rightarrow> (s\<lparr>error := checkMessage c (formData s)\<rparr>, False)) \<and>
   (passes TitleCheck (formData s) \<longleftrightarrow>
      trim (title (formData s)) \<noteq> [] \<and> 10 \<le> length (title (formData s))) \<and>
   (passes SummaryCheck (formData s) \<longleftrightarrow>
      trim (summary (formData s)) \<noteq> [] \<and> 20 \<le> length (summary (formData s))) \<and>
   (passes ContentCheck (formData s) \<longleftrightarrow>
      trim (content (formData s)) \<noteq> [] \<and> 100 \<le> length (content (formData s))) \<and>
   (passes ImageUrlCheck (formData s) \<longleftrightarrow>
      trim (imageUrl (formData s)) \<noteq> [] \<and>
      (\<exists>scheme body ext rest.
         imageUrl (formData s) = scheme @ ''://'' @ body @ ''.'' @ ext @ rest \<and>
         isHttpScheme scheme \<and> body \<noteq> [] \<and> (\<forall>c\<in>set body. \<not> lineTerminator c) \<and>
         isImageExt ext)) \<and>
   (length (title (formData s)) = 9 \<longrightarrow>
      validateForm s = (s\<lparr>error := checkMessage TitleCheck (formData s)\<rparr>, False)) \<and>
   (length (title (formData s)) = 10 \<and> trim (title (formData s)) \<noteq> [] \<longrightarrow>
      passes TitleCheck (formData s) \<and>
      (passes SummaryCheck (formData s) \<and> passes ContentCheck (formData s) \<and>
       passes ImageUrlCheck (formData s) \<longrightarrow> validateForm s = (s, True))) \<and>
   (length (content (formData s)) = 99 \<longrightarrow>
      \<not> passes ContentCheck (formData s) \<and> \<not> snd (validateForm s)) \<and>
   (length (content (formData s)) = 100 \<and> trim (content (formData s)) \<noteq> [] \<longrightarrow>
      passes ContentCheck (formData s) \<and>
      (passes TitleCheck (formData s) \<and> passes SummaryCheck (formData s) \<and>
       passes ImageUrlCheck (formData s) \<longrightarrow> validateForm s = (s, True)))"
proof -
  let ?fd = "formData s"
  have ok: "snd (validateForm s) \<longleftrightarrow> (\<forall>c. passes c ?fd)"
    by (simp only: validateForm_ok passes_all)
  have first: "validateForm s =
     (case firstFailing ?fd of
        None \<Rightarrow> (s, True)
      | Some c \<Rightarrow> (s\<lparr>error := checkMessage c ?fd\<rparr>, False))"
    by (rule validateForm_first)
  have pt: "passes TitleCheck ?fd \<longleftrightarrow> trim (title ?fd) \<noteq> [] \<and> 10 \<le> length (title ?fd)"
    by (simp add: passes_def titleCheck_def)
  have ps: "passes SummaryCheck ?fd \<longleftrightarrow> trim (summary ?fd) \<noteq> [] \<and> 20 \<le> length (summary ?fd)"
    by (simp add: passes_def summaryCheck_def)
  have pc: "passes ContentCheck ?fd \<longleftrightarrow> trim (content ?fd) \<noteq> [] \<and> 100 \<le> length (content ?fd)"
    by (simp add: passes_def contentCheck_def)
  have "passes ImageUrlCheck ?fd \<longleftrightarrow> trim (imageUrl ?fd) \<noteq> [] \<and> isImageUrl (imageUrl ?fd)"
    by (simp add: passes_def imageUrlCheck_def)
  then have pu: "passes ImageUrlCheck ?fd \<longleftrightarrow>
      trim (imageUrl ?fd) \<noteq> [] \<and>
      (\<exists>scheme body ext rest.
         imageUrl ?fd = scheme @ ''://'' @ body @ ''.'' @ ext @ rest \<and>
         isHttpScheme scheme \<and> body \<noteq> [] \<and> (\<forall>c\<in>set body. \<not> lineTerminator c) \<and>
         isImageExt ext)"
    by (simp only: isImageUrl_shape)
  have "length (title ?fd) = 9 \<longrightarrow> firstFailing ?fd = Some TitleCheck"
    by (simp add: firstFailing_def passes_def titleCheck_def)
  with first have t9: "length (title ?fd) = 9 \<longrightarrow>
      validateForm s = (s\<lparr>error := checkMessage TitleCheck ?fd\<rparr>, False)"
    by simp
  have accepted: "passes TitleCheck ?fd \<and> passes SummaryCheck ?fd \<and> passes ContentCheck ?fd \<and>
      passes ImageUrlCheck ?fd \<longrightarrow> validateForm s = (s, True)"
    using validateForm_true [of s] by (simp add: validateForm_ok passes_def)
  have "length (title ?fd) = 10 \<and> trim (title ?fd) \<noteq> [] \<longrightarrow> passes TitleCheck ?fd"
    by (simp add: passes_def titleCheck_def)
  with accepted have t10: "length (title ?fd) = 10 \<and> trim (title ?fd) \<noteq> [] \<longrightarrow>
      passes TitleCheck ?fd \<and>
      (passes SummaryCheck ?fd \<and> passes ContentCheck ?fd \<and> passes ImageUrlCheck ?fd \<longrightarrow>
         validateForm s = (s, True))"
    by blast
  have c99: "length (content ?fd) = 99 \<longrightarrow> \<not> passes ContentCheck ?fd \<and> \<not> snd (validateForm s)"
    by (simp add: validateForm_ok passes_def contentCheck_def)
  have "length (content ?fd) = 100 \<and> trim (content ?fd) \<noteq> [] \<longrightarrow> passes ContentCheck ?fd"
    by (simp add: passes_def contentCheck_def)
  with accepted have c100: "length (content ?fd) = 100 \<and> trim (content ?fd) \<noteq> [] \<longrightarrow>
      passes ContentCheck ?fd \<and>
      (passes TitleCheck ?fd \<and> passes SummaryCheck ?fd \<and> passes ImageUrlCheck ?fd \<longrightarrow>
         validateForm s = (s, True))"
    by blast
  show ?thesis
    apply (intro conjI)
    apply (rule ok)
    apply (rule first)
    apply (rule pt)
    apply (rule ps)
    apply (rule pc)
    apply (rule pu)
    apply (rule t9)
    apply (rule t10)
    apply (rule c99)
    apply (rule c100)
    done
qed

theorem validateForm_first_failure_witness:
  "length (title sampleForm) = 10 \<and> trim (title sampleForm) \<noteq> [] \<and>
   length (content sampleForm) = 100 \<and> trim (content sampleForm) \<noteq> [] \<and>
   (\<forall>c. passes c sampleForm) \<and>
   validateForm sampleState = (sampleState, True) \<and>
   length (title (sampleForm\<lparr>title := ''City vote''\<rparr>)) = 9 \<and>
   validateForm (sampleState\<lparr>formData := sampleForm\<lparr>title := ''City vote''\<rparr>\<rparr>) =
     (sampleState\<lparr>formData := sampleForm\<lparr>title := ''City vote''\<rparr>,
                   error := ''Title must be at least 10 characters''\<rparr>, False) \<and>
   length (content (sampleForm\<lparr>content := replicate 99 CHR ''x''\<rparr>)) = 99 \<and>
   \<not> snd (validateForm (sampleState\<lparr>formData := sampleForm\<lparr>content := replicate 99 CHR ''x''\<rparr>\<rparr>))"
proof -
  let ?short = "sampleState\<lparr>formData := sampleForm\<lparr>title := ''City vote''\<rparr>\<rparr>"
  let ?thin = "sampleState\<lparr>formData := sampleForm\<lparr>content := replicate 99 CHR ''x''\<rparr>\<rparr>"
  have fd: "formData sampleState = sampleForm" by (simp add: sampleState_def)
  have lens: "length (title sampleForm) = 10" "length (content sampleForm) = 100"
    by (simp_all add: sampleForm_def)
  have trims: "trim (title sampleForm) \<noteq> []" "trim (content sampleForm) \<noteq> []"
    using sample_checks by (simp_all add: titleCheck_def contentCheck_def)
  have rest: "passes SummaryCheck sampleForm" "passes ContentCheck sampleForm"
    "passes ImageUrlCheck sampleForm"
    using sample_checks by (simp_all add: passes_def)
  have short: "length (title (formData ?short)) = 9" "trim (title (formData ?short)) \<noteq> []"
    by (simp_all add: trim_def isSpace_def)
  have thin: "length (content (formData ?thin)) = 99" by simp
  note sample = validateForm_first_failure [of sampleState, unfolded fd]
  from sample lens trims rest have accepted: "validateForm sampleState = (sampleState, True)"
    by blast
  then have "snd (validateForm sampleState)" by simp
  with sample have "\<forall>c. passes c sampleForm" by blast
  with accepted
  have a: "(\<forall>c. passes c sampleForm) \<and> validateForm sampleState = (sampleState, True)"
    by blast
  from validateForm_first_failure [of ?short] short(1)
  have "validateForm ?short = (?short\<lparr>error := checkMessage TitleCheck (formData ?short)\<rparr>, False)"
    by blast
  moreover from short(2)
  have "checkMessage TitleCheck (formData ?short) = ''Title must be at least 10 characters''"
    by (simp add: checkMessage_def)
  ultimately have b: "validateForm ?short =
     (?short\<lparr>error := ''Title must be at least 10 characters''\<rparr>, False)"
    by simp
  from validateForm_first_failure [of ?thin] thin
  have c: "\<not> snd (validateForm ?thin)" by blast
  from a b c lens trims short thin show ?thesis by simp
qed

section \<open>Submission\<close>

text \<open>
  C10. The length tests of validation read the fields as typed, and the article sent
  to the backend holds the trimmed fields. So there is a form that passes validation
  (a title of nine spaces and one letter, 10 characters as typed) whose published
  title is shorter than 10 characters, and likewise a summary shorter than 20 and a
  content shorter than 100.
\<close>

theorem published_below_minimum:
  "a_title (newArticle env u fd) = trim (title fd) \<and>
   a_summary (newArticle env u fd) = trim (summary fd) \<and>
   a_content (newArticle env u fd) = trim (content fd) \<and>
   (snd (validateForm s) \<longrightarrow>
      10 \<le> length (title (formData s)) \<and> 20 \<le> length (summary (formData s)) \<and>
      100 \<le> length (content (formData s))) \<and>
   (user env = Some u \<and> isAuthenticated env \<and> snd (validateForm s) \<and>
    config env = Some (url, key) \<longrightarrow>
      requests (snd (handleSubmit env res s)) =
        [Fetch (url @ ''/rest/v1/user_articles'') key (newArticle env u (formData s))]) \<and>
   (\<exists>s. title (formData s) = padded 10 \<and> snd (validateForm s) \<and>
        length (a_title (newArticle env u (formData s))) < 10) \<and>
   (\<exists>s. snd (validateForm s) \<and> length (a_summary (newArticle env u (formData s))) < 20) \<and>
   (\<exists>s. snd (validateForm s) \<and> length (a_content (newArticle env u (formData s))) < 100)"
proof -
  have sent: "user env = Some u \<and> isAuthenticated env \<and> snd (validateForm s) \<and>
    config env = Some (url, key) \<longrightarrow>
      requests (snd (handleSubmit env res s)) =
        [Fetch (url @ ''/rest/v1/user_articles'') key (newArticle env u (formData s))]"
  proof
    assume a: "user env = Some u \<and> isAuthenticated env \<and> snd (validateForm s) \<and>
      config env = Some (url, key)"
    then show "requests (snd (handleSubmit env res s)) =
        [Fetch (url @ ''/rest/v1/user_articles'') key (newArticle env u (formData s))]"
      by (simp add: handleSubmit_ready [of env u s url key res] Let_def requests_def catchError_def
          split: fetch_result.splits json_result.splits option.splits)
  qed
  have t: "\<exists>s. title (formData s) = padded 10 \<and> snd (validateForm s) \<and>
        length (a_title (newArticle env u (formData s))) < 10"
    using padded_title_valid
    by (intro exI [of _ "sampleState\<lparr>formData := sampleForm\<lparr>title := padded 10\<rparr>\<rparr>"])
       (simp add: newArticle_def trim_padded)
  have sm: "\<exists>s. snd (validateForm s) \<and> length (a_summary (newArticle env u (formData s))) < 20"
    using padded_summary_valid
    by (intro exI [of _ "sampleState\<lparr>formData := sampleForm\<lparr>summary := padded 20\<rparr>\<rparr>"])
       (simp add: newArticle_def trim_padded)
  have c: "\<exists>s. snd (validateForm s) \<and> length (a_content (newArticle env u (formData s))) < 100"
    using padded_content_valid
    by (intro exI [of _ "sampleState\<lparr>formData := sampleForm\<lparr>content := padded 100\<rparr>\<rparr>"])
       (simp add: newArticle_def trim_padded)
  from newArticle_trims [of env u fd] validateForm_lengths [of s] sent t sm c
  show ?thesis by blast
qed

theorem published_below_minimum_witness:
  "snd (validateForm (sampleState\<lparr>formData := sampleForm\<lparr>title := padded 10\<rparr>\<rparr>)) \<and>
   10 \<le> length (title (formData (sampleState\<lparr>formData := sampleForm\<lparr>title := padded 10\<rparr>\<rparr>))) \<and>
   a_title (newArticle sampleEnv sampleUser
     (formData (sampleState\<lparr>formData := sampleForm\<lparr>title := padded 10\<rparr>\<rparr>))) = ''X'' \<and>
   requests (snd (handleSubmit sampleEnv (Response True (JsonValue None))
       (sampleState\<lparr>formData := sampleForm\<lparr>title := padded 10\<rparr>\<rparr>))) =
     [Fetch ''https://db.example/rest/v1/user_articles'' ''anon''
        (newArticle sampleEnv sampleUser
          (formData (sampleState\<lparr>formData := sampleForm\<lparr>title := padded 10\<rparr>\<rparr>)))]"
proof -
  let ?s = "sampleState\<lparr>formData := sampleForm\<lparr>title := padded 10\<rparr>\<rparr>"
  from published_below_minimum [of sampleEnv sampleUser "formData ?s" ?s
      "''https://db.example''" "''anon''" "Response True (JsonValue None)"]
    padded_title_valid sample_config sample_user
  show ?thesis by (simp add: trim_padded)
qed

text \<open>
  C7, as stated: after a response that is not ok or a request that throws, the message
  shown is the one extracted from the response body, or a generic fallback when there
  is none. When \<^verbatim>\<open>fetch\<close> throws there is no body, and the message shown is the
  thrown error's own.
\<close>

theorem handleSubmit_network_error:
  "error (fst (handleSubmit sampleEnv (FetchThrows ''Failed to fetch'') sampleState)) = ''Failed to fetch'' \<and>
   \<not> claimedMessage (FetchThrows ''Failed to fetch'')
       (error (fst (handleSubmit sampleEnv (FetchThrows ''Failed to fetch'') sampleState)))"
  by (simp add: handleSubmit_ready [OF sample_user sample_ok sample_config] Let_def catchError_def
      orElse_def claimedMessage_def bodyMessage_def genericFallbacks_def)

text \<open>
  C7, amended: when validation fails no request is sent. When a request is sent and
  the response is not ok, the message shown is the \<^verbatim>\<open>message\<close> of the response body,
  or \<^verbatim>\<open>Failed to publish article\<close> when the body has none; when the request throws,
  or the body of a response that is not ok cannot be read, it is the message of the
  thrown error, or \<^verbatim>\<open>Failed to publish article. Please try again.\<close> when that is
  empty. In each of these cases exactly one request was made, the form keeps its
  fields, and the component is no longer submitting.
\<close>

theorem handleSubmit_failure:
  "(\<not> snd (validateForm s) \<longrightarrow> snd (handleSubmit env res s) = []) \<and>
   (user env = Some u \<and> isAuthenticated env \<and> snd (validateForm s) \<and>
    config env = Some (url, key) \<and>
    (res = FetchThrows msg \<or> res = Response False (JsonThrows msg) \<or>
     res = Response False (JsonValue message)) \<longrightarrow>
      error (fst (handleSubmit env res s)) =
        (case res of
           Response ok (JsonValue m) \<Rightarrow> orElse m ''Failed to publish article''
         | _ \<Rightarrow> orElse (Some msg) ''Failed to publish article. Please try again.'') \<and>
      requests (snd (handleSubmit env res s)) =
        [Fetch (url @ ''/rest/v1/user_articles'') key (newArticle env u (formData s))] \<and>
      formData (fst (handleSubmit env res s)) = formData s \<and>
      success (fst (handleSubmit env res s)) = success s \<and>
      \<not> isSubmitting (fst (handleSubmit env res s)))"
proof -
  have orElse_ne: "\<And>m d. d \<noteq> [] \<Longrightarrow> orElse m d \<noteq> []"
    by (simp add: orElse_def split: option.splits)
  have "user env = Some u \<and> isAuthenticated env \<and> snd (validateForm s) \<and>
    config env = Some (url, key) \<and>
    (res = FetchThrows msg \<or> res = Response False (JsonThrows msg) \<or>
     res = Response False (JsonValue message)) \<longrightarrow>
      error (fst (handleSubmit env res s)) =
        (case res of
           Response ok (JsonValue m) \<Rightarrow> orElse m ''Failed to publish article''
         | _ \<Rightarrow> orElse (Some msg) ''Failed to publish article. Please try again.'') \<and>
      requests (snd (handleSubmit env res s)) =
        [Fetch (url @ ''/rest/v1/user_articles'') key (newArticle env u (formData s))] \<and>
      formData (fst (handleSubmit env res s)) = formData s \<and>
      success (fst (handleSubmit env res s)) = success s \<and>
      \<not> isSubmitting (fst (handleSubmit env res s))"
  proof
    assume a: "user env = Some u \<and> isAuthenticated env \<and> snd (validateForm s) \<and>
      config env = Some (url, key) \<and>
      (res = FetchThrows msg \<or> res = Response False (JsonThrows msg) \<or>
       res = Response False (JsonValue message))"
    then have r: "handleSubmit env res s =
      (let s2 = s\<lparr>isSubmitting := True, error := []\<rparr>;
          request = Fetch (url @ ''/rest/v1/user_articles'') key (newArticle env u (formData s))
      in case res of
           FetchThrows msg \<Rightarrow> catchError msg s2 [request]
         | Response ok body \<Rightarrow>
             if \<not> ok
             then (case body of
                     JsonThrows msg \<Rightarrow> catchError msg s2 [request]
                   | JsonValue message \<Rightarrow>
                       catchError (orElse message ''Failed to publish article'') s2 [request])
             else (case body of
                     JsonThrows msg \<Rightarrow> catchError msg s2 [request]
                   | JsonValue createdArticle \<Rightarrow>
                       (s2\<lparr>success := True, isSubmitting := False\<rparr>,
                        [request, AddCamblissPoints 50 ''Published news article''] @
                        (case publishedStories u of
                           None \<Rightarrow> []
                         | Some n \<Rightarrow>
                             [SetItem ''cambliss-user'' (u\<lparr>publishedStories := Some (n + 1)\<rparr>)]) @
                        [SetTimeout 2000])))"
      by (intro handleSubmit_ready) simp_all
    from a consider "res = FetchThrows msg" | "res = Response False (JsonThrows msg)"
      | "res = Response False (JsonValue message)" by blast
    then show "error (fst (handleSubmit env res s)) =
        (case res of
           Response ok (JsonValue m) \<Rightarrow> orElse m ''Failed to publish article''
         | _ \<Rightarrow> orElse (Some msg) ''Failed to publish article. Please try again.'') \<and>
      requests (snd (handleSubmit env res s)) =
        [Fetch (url @ ''/rest/v1/user_articles'') key (newArticle env u (formData s))] \<and>
      formData (fst (handleSubmit env res s)) = formData s \<and>
      success (fst (handleSubmit env res s)) = success s \<and>
      \<not> isSubmitting (fst (handleSubmit env res s))"
    proof cases
      case 1
      with r show ?thesis by (simp add: Let_def catchError_def requests_def)
    next
      case 2
      with r show ?thesis by (simp add: Let_def catchError_def requests_def)
    next
      case 3
      have "orElse message ''Failed to publish article'' \<noteq> []" by (rule orElse_ne) simp
      then have "orElse (Some (orElse message ''Failed to publish article''))
          ''Failed to publish article. Please try again.'' = orElse message ''Failed to publish article''"
        by (simp add: orElse_def)
      with r 3 show ?thesis by (simp add: Let_def catchError_def requests_def)
    qed
  qed
  with handleSubmit_invalid [of s env res] show ?thesis by blast
qed

theorem handleSubmit_failure_witness:
  "\<not> snd (validateForm (sampleState\<lparr>formData := emptyForm\<rparr>)) \<and>
   snd (handleSubmit sampleEnv (Response True (JsonValue None)) (sampleState\<lparr>formData := emptyForm\<rparr>)) = [] \<and>
   error (fst (handleSubmit sampleEnv (Response False (JsonValue (Some ''duplicate key''))) sampleState))
     = ''duplicate key'' \<and>
   error (fst (handleSubmit sampleEnv (Response False (JsonValue None)) sampleState))
     = ''Failed to publish article'' \<and>
   error (fst (handleSubmit sampleEnv (FetchThrows []) sampleState))
     = ''Failed to publish article. Please try again.'' \<and>
   requests (snd (handleSubmit sampleEnv (FetchThrows []) sampleState)) =
     [Fetch ''https://db.example/rest/v1/user_articles'' ''anon''
        (newArticle sampleEnv sampleUser sampleForm)] \<and>
   formData (fst (handleSubmit sampleEnv (FetchThrows []) sampleState)) = sampleForm"
proof -
  have fd: "formData sampleState = sampleForm" by (simp add: sampleState_def)
  have bad: "\<not> snd (validateForm (sampleState\<lparr>formData := emptyForm\<rparr>))"
    by (simp add: validateForm_ok titleCheck_def emptyForm_def trim_def)
  from handleSubmit_failure [of "sampleState\<lparr>formData := emptyForm\<rparr>" sampleEnv
      "Response True (JsonValue None)"] bad
  have a: "snd (handleSubmit sampleEnv (Response True (JsonValue None))
      (sampleState\<lparr>formData := emptyForm\<rparr>)) = []" by blast
  from handleSubmit_failure [of sampleState sampleEnv "Response False (JsonValue (Some ''duplicate key''))"
      sampleUser "''https://db.example''" "''anon''" "[]" "Some ''duplicate key''"]
    sample_user sample_ok sample_config
  have b: "error (fst (handleSubmit sampleEnv (Response False (JsonValue (Some ''duplicate key''))) sampleState))
     = ''duplicate key''" by (simp add: orElse_def)
  from handleSubmit_failure [of sampleState sampleEnv "Response False (JsonValue None)"
      sampleUser "''https://db.example''" "''anon''" "[]" None]
    sample_user sample_ok sample_config
  have c: "error (fst (handleSubmit sampleEnv (Response False (JsonValue None)) sampleState))
     = ''Failed to publish article''" by (simp add: orElse_def)
  from handleSubmit_failure [of sampleState sampleEnv "FetchThrows []"
      sampleUser "''https://db.example''" "''anon''" "[]" None]
    sample_user sample_ok sample_config fd
  have d: "error (fst (handleSubmit sampleEnv (FetchThrows []) sampleState))
     = ''Failed to publish article. Please try again.'' \<and>
   requests (snd (handleSubmit sampleEnv (FetchThrows []) sampleState)) =
     [Fetch ''https://db.example/rest/v1/user_articles'' ''anon''
        (newArticle sampleEnv sampleUser sampleForm)] \<and>
   formData (fst (handleSubmit sampleEnv (FetchThrows []) sampleState)) = sampleForm"
    by (simp add: orElse_def)
  from bad a b c d show ?thesis by simp
qed

text \<open>
  C9, as stated: after every acknowledged submission the user's persisted counter of
  published articles is one higher. The source writes the profile only when the
  user's counter is defined; for a user without one nothing is written.
\<close>

theorem handleSubmit_no_counter:
  "success (fst (handleSubmit (sampleEnv\<lparr>user := Some (sampleUser\<lparr>publishedStories := None\<rparr>)\<rparr>)
       (Response True (JsonValue None)) sampleState)) \<and>
   filter isSetItem
     (snd (handleSubmit (sampleEnv\<lparr>user := Some (sampleUser\<lparr>publishedStories := None\<rparr>)\<rparr>)
       (Response True (JsonValue None)) sampleState)) = []"
proof -
  let ?env = "sampleEnv\<lparr>user := Some (sampleUser\<lparr>publishedStories := None\<rparr>)\<rparr>"
  have "user ?env = Some (sampleUser\<lparr>publishedStories := None\<rparr>)" "isAuthenticated ?env"
    "config ?env = Some (''https://db.example'', ''anon'')"
    using sample_user sample_config by (simp_all add: config_def)
  from handleSubmit_ready [OF this(1,2) sample_ok this(3)] show ?thesis
    by (simp add: Let_def)
qed

text \<open>
  C9, amended: when the backend acknowledges the submission (a response that is ok,
  with a body that can be read), the effects after the request are: one award of 50
  points with the label \<^verbatim>\<open>Published news article\<close>; then, only if the user's profile
  has a counter of published stories, that profile written to \<^verbatim>\<open>cambliss-user\<close> with
  the counter one higher; then a timeout of 2000 ms, whose function calls
  \<^verbatim>\<open>onSuccess\<close> and closes the dialog. The success flag is set.
\<close>

theorem handleSubmit_success:
  "user env = Some u \<and> isAuthenticated env \<and> snd (validateForm s) \<and>
   config env = Some (url, key) \<and> res = Response True (JsonValue row) \<longrightarrow>
     snd (handleSubmit env res s) =
       [Fetch (url @ ''/rest/v1/user_articles'') key (newArticle env u (formData s)),
        AddCamblissPoints 50 ''Published news article''] @
       (case publishedStories u of
          None \<Rightarrow> []
        | Some n \<Rightarrow> [SetItem ''cambliss-user'' (u\<lparr>publishedStories := Some (n + 1)\<rparr>)]) @
       [SetTimeout 2000] \<and>
     success (fst (handleSubmit env res s)) \<and>
     \<not> isSubmitting (fst (handleSubmit env res s)) \<and>
     snd (afterTimeout (fst (handleSubmit env res s))) = [OnSuccess, OnClose]"
proof
  assume a: "user env = Some u \<and> isAuthenticated env \<and> snd (validateForm s) \<and>
   config env = Some (url, key) \<and> res = Response True (JsonValue row)"
  then have "user env = Some u" "isAuthenticated env" "snd (validateForm s)"
    "config env = Some (url, key)" by simp_all
  from handleSubmit_ready [OF this, of res] a
  show "snd (handleSubmit env res s) =
       [Fetch (url @ ''/rest/v1/user_articles'') key (newArticle env u (formData s)),
        AddCamblissPoints 50 ''Published news article''] @
       (case publishedStories u of
          None \<Rightarrow> []
        | Some n \<Rightarrow> [SetItem ''cambliss-user'' (u\<lparr>publishedStories := Some (n + 1)\<rparr>)]) @
       [SetTimeout 2000] \<and>
     success (fst (handleSubmit env res s)) \<and>
     \<not> isSubmitting (fst (handleSubmit env res s)) \<and>
     snd (afterTimeout (fst (handleSubmit env res s))) = [OnSuccess, OnClose]"
    by (simp add: Let_def afterTimeout_def handleClose_def)
qed

theorem handleSubmit_success_witness:
  "snd (handleSubmit sampleEnv (Response True (JsonValue None)) sampleState) =
     [Fetch ''https://db.example/rest/v1/user_articles'' ''anon''
        (newArticle sampleEnv sampleUser sampleForm),
      AddCamblissPoints 50 ''Published news article'',
      SetItem ''cambliss-user'' (sampleUser\<lparr>publishedStories := Some 4\<rparr>),
      SetTimeout 2000] \<and>
   success (fst (handleSubmit sampleEnv (Response True (JsonValue None)) sampleState))"
proof -
  have "publishedStories sampleUser = Some 3" "formData sampleState = sampleForm"
    by (simp_all add: sampleUser_def sampleState_def)
  with handleSubmit_success [of sampleEnv sampleUser sampleState "''https://db.example''" "''anon''"
      "Response True (JsonValue None)" None] sample_user sample_ok sample_config
  show ?thesis by simp
qed

section \<open>Premium status\<close>

text \<open>
  C3. The resolved \<^verbatim>\<open>isPremium\<close> is true exactly when the subscription flag is true
  or the stored string under \<^verbatim>\<open>isPremium\<close> is exactly \<^verbatim>\<open>true\<close>. No stored value, or
  any other string, counts as false.
\<close>

theorem checkPremium_resolved:
  "checkPremium sub st = (sub \<or> getItem st ''isPremium'' = Some ''true'') \<and>
   \<not> checkPremium False Map.empty \<and>
   \<not> checkPremium False [''isPremium'' \<mapsto> ''True''] \<and>
   \<not> checkPremium False [''isPremium'' \<mapsto> ''true ''] \<and>
   \<not> checkPremium False [''isPremium'' \<mapsto> ''1''] \<and>
   \<not> checkPremium False [''isPremium'' \<mapsto> ''false''] \<and>
   checkPremium False [''isPremium'' \<mapsto> ''true''] \<and>
   checkPremium True Map.empty"
proof -
  have resolved: "checkPremium sub st = (sub \<or> getItem st ''isPremium'' = Some ''true'')"
    by (cases "getItem st ''isPremium''") (simp_all add: checkPremium_def)
  have absent: "\<not> checkPremium False Map.empty" "checkPremium True Map.empty"
    by (simp_all add: checkPremium_def getItem_def)
  have others: "\<not> checkPremium False [''isPremium'' \<mapsto> ''True'']"
    "\<not> checkPremium False [''isPremium'' \<mapsto> ''true '']"
    "\<not> checkPremium False [''isPremium'' \<mapsto> ''1'']"
    "\<not> checkPremium False [''isPremium'' \<mapsto> ''false'']"
    by (simp_all add: checkPremium_def getItem_def)
  have exact: "checkPremium False [''isPremium'' \<mapsto> ''true'']"
    by (simp add: checkPremium_def getItem_def)
  from resolved absent others exact show ?thesis by blast
qed

section \<open>Playback\<close>




text \<open>
  C2, as stated: in a session in which \<open>isPremium\<close> is true no time update, at any
  position, pauses the audio or sets the upgrade prompt. The session below starts
  without premium; at 30 seconds of the first episode the hook turns to premium
  (\<^verbatim>\<open>checkPremium\<close> after a storage event or \<^verbatim>\<open>premiumStatusChanged\<close>) and the
  component renders with \<open>isPremium\<close> true, the episode playing with no prompt. The
  listener on the element is still the function of the render that made the element,
  and it holds the \<open>isPremium\<close> of that render: the time update at 61.5 seconds pauses
  the audio, sets \<open>isPlaying\<close> to false and sets the upgrade prompt.
\<close>

theorem upgrade_during_episode:
  "hook_isPremium (run [SelectEpisode (Some sampleEpisode), TimeUpdate 30, PremiumChanged True]
      (mount False)) \<and>
   isPlaying (state (run [SelectEpisode (Some sampleEpisode), TimeUpdate 30, PremiumChanged True]
      (mount False))) \<and>
   \<not> showUpgradePrompt (state (run [SelectEpisode (Some sampleEpisode), TimeUpdate 30,
      PremiumChanged True] (mount False))) \<and>
   hook_isPremium (run [SelectEpisode (Some sampleEpisode), TimeUpdate 30, PremiumChanged True,
      TimeUpdate 61.5] (mount False)) \<and>
   \<not> isPlaying (state (run [SelectEpisode (Some sampleEpisode), TimeUpdate 30, PremiumChanged True,
      TimeUpdate 61.5] (mount False))) \<and>
   showUpgradePrompt (state (run [SelectEpisode (Some sampleEpisode), TimeUpdate 30,
      PremiumChanged True, TimeUpdate 61.5] (mount False))) \<and>
   audioPaused (state (run [SelectEpisode (Some sampleEpisode), TimeUpdate 30, PremiumChanged True,
      TimeUpdate 61.5] (mount False))) = Some True"
  by (simp add: component_eval samples_eval audioPaused_def)

text \<open>
  C5. A click on the progress bar at a fraction of its width sets the position, stored
  and of the audio element, to that fraction of the episode's duration in a premium
  session and to that fraction of 60 seconds otherwise; a fraction between 0 and 1 then
  gives a position between 0 and 60. When the stored position of a session that is not
  premium is at or past 60 seconds the click changes nothing. Half of the bar on an
  episode of 754 seconds gives 30 seconds without premium and 377 with it.
\<close>

theorem seek_position:
  "audioRef s = Some a \<and> rect_width e \<noteq> 0 \<longrightarrow>
     handleProgressClick True (Some ep) e s =
       s\<lparr>audioRef := Some (a\<lparr>position := percentage e * duration ep\<rparr>),
         currentTime := percentage e * duration ep\<rparr> \<and>
     (currentTime s < FREE_LIMIT \<longrightarrow>
        handleProgressClick False (Some ep) e s =
          s\<lparr>audioRef := Some (a\<lparr>position := percentage e * 60\<rparr>),
            currentTime := percentage e * 60\<rparr>) \<and>
     (FREE_LIMIT \<le> currentTime s \<longrightarrow> handleProgressClick False (Some ep) e s = s) \<and>
     (0 \<le> percentage e \<and> percentage e \<le> 1 \<and> currentTime s < FREE_LIMIT \<longrightarrow>
        0 \<le> currentTime (handleProgressClick False (Some ep) e s) \<and>
        currentTime (handleProgressClick False (Some ep) e s) \<le> FREE_LIMIT) \<and>
     (percentage e = 1 / 2 \<and> duration ep = 754 \<and> currentTime s < FREE_LIMIT \<longrightarrow>
        currentTime (handleProgressClick False (Some ep) e s) = 30 \<and>
        currentTime (handleProgressClick True (Some ep) e s) = 377)"
proof
  assume a: "audioRef s = Some a \<and> rect_width e \<noteq> 0"
  then have premium: "handleProgressClick True (Some ep) e s =
       s\<lparr>audioRef := Some (a\<lparr>position := percentage e * duration ep\<rparr>),
         currentTime := percentage e * duration ep\<rparr>"
    by (simp add: handleProgressClick_def Let_def)
  from a have free: "currentTime s < FREE_LIMIT \<longrightarrow>
        handleProgressClick False (Some ep) e s =
          s\<lparr>audioRef := Some (a\<lparr>position := percentage e * 60\<rparr>),
            currentTime := percentage e * 60\<rparr>"
    by (simp add: handleProgressClick_def Let_def FREE_LIMIT_def)
  from a have stop: "FREE_LIMIT \<le> currentTime s \<longrightarrow> handleProgressClick False (Some ep) e s = s"
    by (simp add: handleProgressClick_def)
  from free have range: "0 \<le> percentage e \<and> percentage e \<le> 1 \<and> currentTime s < FREE_LIMIT \<longrightarrow>
        0 \<le> currentTime (handleProgressClick False (Some ep) e s) \<and>
        currentTime (handleProgressClick False (Some ep) e s) \<le> FREE_LIMIT"
    by (simp add: FREE_LIMIT_def)
  from free premium
  have half: "percentage e = 1 / 2 \<and> duration ep = 754 \<and> currentTime s < FREE_LIMIT \<longrightarrow>
        currentTime (handleProgressClick False (Some ep) e s) = 30 \<and>
        currentTime (handleProgressClick True (Some ep) e s) = 377"
    by simp
  from premium free stop range half
  show "handleProgressClick True (Some ep) e s =
       s\<lparr>audioRef := Some (a\<lparr>position := percentage e * duration ep\<rparr>),
         currentTime := percentage e * duration ep\<rparr> \<and>
     (currentTime s < FREE_LIMIT \<longrightarrow>
        handleProgressClick False (Some ep) e s =
          s\<lparr>audioRef := Some (a\<lparr>position := percentage e * 60\<rparr>),
            currentTime := percentage e * 60\<rparr>) \<and>
     (FREE_LIMIT \<le> currentTime s \<longrightarrow> handleProgressClick False (Some ep) e s = s) \<and>
     (0 \<le> percentage e \<and> percentage e \<le> 1 \<and> currentTime s < FREE_LIMIT \<longrightarrow>
        0 \<le> currentTime (handleProgressClick False (Some ep) e s) \<and>
        currentTime (handleProgressClick False (Some ep) e s) \<le> FREE_LIMIT) \<and>
     (percentage e = 1 / 2 \<and> duration ep = 754 \<and> currentTime s < FREE_LIMIT \<longrightarrow>
        currentTime (handleProgressClick False (Some ep) e s) = 30 \<and>
        currentTime (handleProgressClick True (Some ep) e s) = 377)"
    by blast
qed

theorem seek_position_witness:
  "rect_width middleClick \<noteq> 0 \<and> percentage middleClick = 1 / 2 \<and> duration sampleEpisode = 754 \<and>
   currentTime playing < FREE_LIMIT \<and>
   0 \<le> percentage middleClick \<and> percentage middleClick \<le> 1 \<and>
   currentTime (handleProgressClick False (Some sampleEpisode) middleClick playing) = 30 \<and>
   currentTime (handleProgressClick False (Some sampleEpisode) middleClick playing) \<le> FREE_LIMIT \<and>
   currentTime (handleProgressClick True (Some sampleEpisode) middleClick playing) = 377 \<and>
   FREE_LIMIT \<le> currentTime (playing\<lparr>currentTime := 60\<rparr>) \<and>
   handleProgressClick False (Some sampleEpisode) middleClick (playing\<lparr>currentTime := 60\<rparr>) =
     playing\<lparr>currentTime := 60\<rparr>"
proof -
  let ?a = "\<lparr>src = ''https://fakeaudio.com/1.mp3'', paused = False, position = 59.9\<rparr>"
  have c: "rect_width middleClick \<noteq> 0" "percentage middleClick = 1 / 2"
    by (simp_all add: middleClick_def percentage_def)
  have d: "duration sampleEpisode = 754" by (simp add: sampleEpisode_def)
  have p: "currentTime playing < FREE_LIMIT" "FREE_LIMIT \<le> currentTime (playing\<lparr>currentTime := 60\<rparr>)"
    "audioRef playing = Some ?a" "audioRef (playing\<lparr>currentTime := 60\<rparr>) = Some ?a"
    by (simp_all add: playing_def FREE_LIMIT_def)
  from seek_position [of playing ?a middleClick sampleEpisode] c d p
  have free: "currentTime (handleProgressClick False (Some sampleEpisode) middleClick playing) = 30 \<and>
    currentTime (handleProgressClick False (Some sampleEpisode) middleClick playing) \<le> FREE_LIMIT \<and>
    currentTime (handleProgressClick True (Some sampleEpisode) middleClick playing) = 377"
    by simp
  from seek_position [of "playing\<lparr>currentTime := 60\<rparr>" ?a middleClick sampleEpisode] c p
  have stop: "handleProgressClick False (Some sampleEpisode) middleClick (playing\<lparr>currentTime := 60\<rparr>) =
     playing\<lparr>currentTime := 60\<rparr>"
    by blast
  from c d p free stop show ?thesis by simp
qed

end
